theory Spec2Isabelle
  imports Main "HOL-Library.Sublist"
begin

section \<open>JavaScript string operations used by server.js\<close>

text \<open>
  Strings are byte lists. \<open>toLowerCase\<close> is modelled on the ASCII letters, which is
  where it matters for the fixed file names and extensions the server compares with.
\<close>

definition newline :: char where
  "newline = CHR 0x0A"

definition lower_char :: "char \<Rightarrow> char" where
  "lower_char c =
     (case map_of (zip ''ABCDEFGHIJKLMNOPQRSTUVWXYZ'' ''abcdefghijklmnopqrstuvwxyz'') c of
        None \<Rightarrow> c
      | Some d \<Rightarrow> d)"

definition toLowerCase :: "string \<Rightarrow> string" where
  "toLowerCase s = map lower_char s"

definition endsWith :: "string \<Rightarrow> string \<Rightarrow> bool" where
  "endsWith s suf = suffix suf s"

text \<open>\<open>s.includes(m)\<close>: \<open>m\<close> occurs in \<open>s\<close> as a contiguous substring.\<close>

fun js_includes :: "string \<Rightarrow> string \<Rightarrow> bool" where
  "js_includes [] m = (m = [])"
| "js_includes (c # cs) m = (prefix m (c # cs) \<or> js_includes cs m)"

text \<open>The regular expression \<open>/\.html?$/i\<close> applied to a file name or path.\<close>

definition html_name :: "string \<Rightarrow> bool" where
  "html_name n = (endsWith (toLowerCase n) ''.html'' \<or> endsWith (toLowerCase n) ''.htm'')"

text \<open>\<open>s.replace(/\\/g, '/')\<close>: every backslash becomes a slash.\<close>

definition unbackslash :: "string \<Rightarrow> string" where
  "unbackslash s = map (\<lambda>c. if c = CHR 0x5C then CHR ''/'' else c) s"

text \<open>
  \<open>String.prototype.replace\<close> with a string pattern replaces the first occurrence only,
  and the replacement text is expanded: \<open>$$\<close> is a dollar sign, \<open>$&\<close> the matched text,
  \<open>$`\<close> the text before the match and \<open>$'\<close> the text after it. With a string pattern
  there are no capture groups, so every other use of \<open>$\<close> stays as it is.
\<close>

fun getSubstitution :: "string \<Rightarrow> string \<Rightarrow> string \<Rightarrow> string \<Rightarrow> string" where
  "getSubstitution matched before after [] = []"
| "getSubstitution matched before after [c] = [c]"
| "getSubstitution matched before after (c # d # r) =
     (if c = CHR ''$'' \<and> d = CHR ''$'' then CHR ''$'' # getSubstitution matched before after r
      else if c = CHR ''$'' \<and> d = CHR ''&'' then matched @ getSubstitution matched before after r
      else if c = CHR ''$'' \<and> d = CHR 0x60 then before @ getSubstitution matched before after r
      else if c = CHR ''$'' \<and> d = CHR 0x27 then after @ getSubstitution matched before after r
      else c # getSubstitution matched before after (d # r))"

text \<open>The text before and after the first occurrence of a pattern, if there is one.\<close>

fun split_first :: "string \<Rightarrow> string \<Rightarrow> (string \<times> string) option" where
  "split_first pat [] = (if pat = [] then Some ([], []) else None)"
| "split_first pat (c # cs) =
     (if prefix pat (c # cs) then Some ([], drop (length pat) (c # cs))
      else (case split_first pat cs of
              None \<Rightarrow> None
            | Some (b, a) \<Rightarrow> Some (c # b, a)))"

definition js_replace :: "string \<Rightarrow> string \<Rightarrow> string \<Rightarrow> string" where
  "js_replace s pat repl =
     (case split_first pat s of
        None \<Rightarrow> s
      | Some (b, a) \<Rightarrow> b @ getSubstitution pat b a repl @ a)"

section \<open>Directory trees and archives\<close>

text \<open>
  A directory is the list of its entries in \<open>readdirSync\<close> order; an entry is a file with
  its content or a subdirectory. Paths are lists of names. An archive being written is
  the list of its entries (name and data) in the order \<open>addFile\<close> was called.
\<close>

datatype node = File string | Dir "(string \<times> node) list"

type_synonym tree = "(string \<times> node) list"

type_synonym archive = "(string \<times> string) list"

fun path_join :: "string list \<Rightarrow> string" where
  "path_join [] = []"
| "path_join [n] = n"
| "path_join (n # m # ns) = n @ CHR ''/'' # path_join (m # ns)"

definition addFile :: "archive \<Rightarrow> string \<Rightarrow> string \<Rightarrow> archive" where
  "addFile z name data = z @ [(name, data)]"

text \<open>
  \<open>addDirToZip(zip, baseDir, currentDir)\<close>. The second argument is \<open>currentDir\<close> relative
  to \<open>baseDir\<close>, the third the listing of \<open>currentDir\<close>.
\<close>

fun addDirToZip :: "archive \<Rightarrow> string list \<Rightarrow> tree \<Rightarrow> archive" where
  "addDirToZip z cur [] = z"
| "addDirToZip z cur ((n, File c) # es) =
     addDirToZip (addFile z (unbackslash (path_join (cur @ [n]))) c) cur es"
| "addDirToZip z cur ((n, Dir ds) # es) =
     addDirToZip (addDirToZip z (cur @ [n]) ds) cur es"

text \<open>The files of a tree with their paths below a directory \<open>cur\<close>, in listing order.\<close>

fun tree_files :: "string list \<Rightarrow> tree \<Rightarrow> (string list \<times> string) list" where
  "tree_files cur [] = []"
| "tree_files cur ((n, File c) # es) = (cur @ [n], c) # tree_files cur es"
| "tree_files cur ((n, Dir ds) # es) = tree_files (cur @ [n]) ds @ tree_files cur es"

text \<open>
  What a directory tree on disk satisfies, and an extracted one in particular: the names
  in one directory are distinct, and a name is not empty, is not \<open>.\<close> or \<open>..\<close> and
  holds no path separator.
\<close>

definition name_ok :: "string \<Rightarrow> bool" where
  "name_ok n =
     (n \<noteq> [] \<and> n \<noteq> ''.'' \<and> n \<noteq> ''..'' \<and> CHR ''/'' \<notin> set n \<and> CHR 0x5C \<notin> set n)"

fun wf_tree :: "tree \<Rightarrow> bool" where
  "wf_tree [] = True"
| "wf_tree ((n, File c) # es) = (name_ok n \<and> n \<notin> fst ` set es \<and> wf_tree es)"
| "wf_tree ((n, Dir ds) # es) = (name_ok n \<and> n \<notin> fst ` set es \<and> wf_tree ds \<and> wf_tree es)"

section \<open>Inlining the instrumentation snippets\<close>

text \<open>
  \<open>injectShimIntoDir\<close> and \<open>injectTrackerIntoDir\<close> read the snippet's source (the first
  argument here), wrap it in a script block that starts with a marker comment, and walk the
  tree. For each file whose name matches \<open>/\.html?$/i\<close> the walk skips the document if it
  holds the marker, and else puts the block after \<open><head>\<close>, or before \<open></head>\<close>, or
  in front of the document. The walk returns the tree as it is on disk afterwards.
\<close>

definition shim_marker :: string where
  "shim_marker = ''SCORM API Shim (inlined)''"

definition tracker_marker :: string where
  "tracker_marker = ''SCORM Event Tracker (inlined)''"

definition shimBlock :: "string \<Rightarrow> string" where
  "shimBlock shimSrc =
     ''<script>'' @ [newline] @ ''/* === SCORM API Shim (inlined) === */'' @ [newline]
       @ shimSrc @ [newline] @ ''</script>'' @ [newline]"

definition trackerBlock :: "string \<Rightarrow> string" where
  "trackerBlock trackerSrc =
     ''<script>'' @ [newline] @ ''/* === SCORM Event Tracker (inlined) === */'' @ [newline]
       @ trackerSrc @ [newline] @ ''</script>'' @ [newline]"

definition inline_block :: "string \<Rightarrow> string \<Rightarrow> string \<Rightarrow> string" where
  "inline_block marker block html =
     (if js_includes html marker then html
      else if js_includes html ''<head>''
        then js_replace html ''<head>'' (''<head>'' @ [newline] @ block)
      else if js_includes html ''</head>''
        then js_replace html ''</head>'' (block @ ''</head>'')
      else block @ html)"

fun walk :: "(string \<Rightarrow> string) \<Rightarrow> tree \<Rightarrow> tree" where
  "walk f [] = []"
| "walk f ((n, Dir ds) # es) = (n, Dir (walk f ds)) # walk f es"
| "walk f ((n, File html) # es) =
     (n, File (if html_name n then f html else html)) # walk f es"

definition injectShimIntoDir :: "string \<Rightarrow> tree \<Rightarrow> tree" where
  "injectShimIntoDir shimSrc dir = walk (inline_block shim_marker (shimBlock shimSrc)) dir"

definition injectTrackerIntoDir :: "string \<Rightarrow> tree \<Rightarrow> tree" where
  "injectTrackerIntoDir trackerSrc dir =
     walk (inline_block tracker_marker (trackerBlock trackerSrc)) dir"

definition injectShimIntoSession :: "string \<Rightarrow> tree \<Rightarrow> tree" where
  "injectShimIntoSession shimSrc sessionDir = injectShimIntoDir shimSrc sessionDir"

text \<open>
  The number of places where a marker occurs in a text, the HTML documents of a tree in
  walk order, and the snippets in whose text no \<open>$\<close> starts a replacement pattern (both
  snippet files of the repository are like that).
\<close>

primrec count_occ :: "string \<Rightarrow> string \<Rightarrow> nat" where
  "count_occ m [] = 0"
| "count_occ m (c # cs) = (if prefix m (c # cs) then 1 else 0) + count_occ m cs"

fun html_docs :: "tree \<Rightarrow> string list" where
  "html_docs [] = []"
| "html_docs ((n, Dir ds) # es) = html_docs ds @ html_docs es"
| "html_docs ((n, File c) # es) = (if html_name n then [c] else []) @ html_docs es"

fun other_files :: "tree \<Rightarrow> string list" where
  "other_files [] = []"
| "other_files ((n, Dir ds) # es) = other_files ds @ other_files es"
| "other_files ((n, File c) # es) = (if html_name n then [] else [c]) @ other_files es"

fun plain_dollars :: "string \<Rightarrow> bool" where
  "plain_dollars [] = True"
| "plain_dollars [c] = True"
| "plain_dollars (c # d # r) =
     ((c = CHR ''$'' \<longrightarrow> d \<notin> {CHR ''$'', CHR ''&'', CHR 0x60, CHR 0x27}) \<and> plain_dollars (d # r))"

section \<open>Parsed manifests\<close>

text \<open>
  What \<open>xml2js\<close> makes of an element: a string when the element has text only, else an
  object with the attributes under \<open>$\<close> (absent when there are none), the text under
  \<open>_\<close> and, under each child name, the array of the children of that name. A parsed
  document is \<open>null\<close> for an empty input and else an object with the root's name as its
  only key. The parser and the builder are the library's; the model takes them as
  parameters, the parser returning \<open>None\<close> where it rejects its input and the builder
  returning \<open>None\<close> where \<open>buildObject\<close> throws.
\<close>

datatype xval =
  XStr string
| XObj "(string \<times> string) list option" "string option" "(string \<times> xval list) list"

datatype xdoc = XNull | XRoot string xval

datatype err = ZipError | ParseError | TypeError | IOError | BuildError

text \<open>Binding the result of a step that may throw.\<close>

definition bind :: "err + 'a \<Rightarrow> ('a \<Rightarrow> err + 'b) \<Rightarrow> err + 'b" where
  "bind m f = (case m of Inl e \<Rightarrow> Inl e | Inr x \<Rightarrow> f x)"

text \<open>
  Property reads. \<open>v.name\<close> is \<open>undefined\<close> (\<open>None\<close>) on a string and on an object
  without that child; \<open>xs[0]\<close> is \<open>undefined\<close> on an empty array, and reading a property
  of \<open>undefined\<close> or \<open>null\<close> throws a \<open>TypeError\<close>.
\<close>

definition kids :: "xval \<Rightarrow> string \<Rightarrow> xval list option" where
  "kids v name = (case v of XStr s \<Rightarrow> None | XObj a t ks \<Rightarrow> map_of ks name)"

definition attrs :: "xval \<Rightarrow> (string \<times> string) list option" where
  "attrs v = (case v of XStr s \<Rightarrow> None | XObj a t ks \<Rightarrow> a)"

definition text_of :: "xval \<Rightarrow> string option" where
  "text_of v = (case v of XStr s \<Rightarrow> None | XObj a t ks \<Rightarrow> t)"

definition first :: "xval list \<Rightarrow> xval option" where
  "first xs = (case xs of [] \<Rightarrow> None | x # _ \<Rightarrow> Some x)"

definition defined :: "xval option \<Rightarrow> err + xval" where
  "defined v = (case v of None \<Rightarrow> Inl TypeError | Some x \<Rightarrow> Inr x)"

text \<open>An attribute that is present and not the empty string.\<close>

definition truthy_attr :: "(string \<times> string) list \<Rightarrow> string \<Rightarrow> string option" where
  "truthy_attr a name =
     (case map_of a name of None \<Rightarrow> None | Some s \<Rightarrow> if s = [] then None else Some s)"

text \<open>\<open>result.manifest\<close>, ready for a property read.\<close>

definition root_manifest :: "xdoc \<Rightarrow> err + xval" where
  "root_manifest d =
     (case d of
        XNull \<Rightarrow> Inl TypeError
      | XRoot name v \<Rightarrow> if name = ''manifest'' then Inr v else Inl TypeError)"

section \<open>analyzeSCORM\<close>

text \<open>
  An archive to read is the list of its entries in archive order, each with its name and
  its data (\<open>None\<close> where \<open>getData\<close> throws); \<open>None\<close> for the archive is a file that
  \<open>AdmZip\<close> cannot open. The lines pushed to \<open>details\<close> are kept as constructors with
  the values they print.
\<close>

type_synonym zip_entry = "string \<times> string option"

datatype detail =
  ScormVersion "xval option"
| Course string
| FoundOrganizations nat
| Sco "xval option"
| ScoUntitled
| FoundScoResources nat
| ContainsScoResources
| FoundApiCalls "string list"
| NoIndicators
| MayStillSupportResume

record metadata =
  meta_version :: "xval option"
  meta_title :: "string option"
  meta_launchFile :: "string option"

record report =
  hasManifest :: bool
  resumeCapable :: bool
  details :: "detail list"
  metadata :: metadata

datatype failure = NoManifestFound | Message err

datatype analysis = Failed failure | Analysis report

definition push :: "detail \<Rightarrow> report \<Rightarrow> report" where
  "push d a = a\<lparr>details := details a @ [d]\<rparr>"

definition analyze_version :: "xval \<Rightarrow> report \<Rightarrow> err + report" where
  "analyze_version manifest a =
     (case kids manifest ''metadata'' of
        None \<Rightarrow> Inr a
      | Some md \<Rightarrow>
          bind (defined (first md)) (\<lambda>md0.
            case kids md0 ''schemaversion'' of
              None \<Rightarrow> Inr a
            | Some sv \<Rightarrow>
                Inr ((push (ScormVersion (first sv)) a)
                       \<lparr>metadata := (metadata a)\<lparr>meta_version := first sv\<rparr>\<rparr>)))"

definition analyze_title :: "xval \<Rightarrow> report \<Rightarrow> err + report" where
  "analyze_title manifest a =
     (case kids manifest ''metadata'' of
        None \<Rightarrow> Inr a
      | Some md \<Rightarrow>
          bind (defined (first md)) (\<lambda>md0.
            case kids md0 ''lom'' of
              None \<Rightarrow> Inr a
            | Some ls \<Rightarrow>
                bind (defined (first ls)) (\<lambda>lom.
                  case kids lom ''general'' of
                    None \<Rightarrow> Inr a
                  | Some gs \<Rightarrow>
                      bind (defined (first gs)) (\<lambda>g0.
                        case kids g0 ''title'' of
                          None \<Rightarrow> Inr a
                        | Some ts \<Rightarrow>
                            bind (defined (first ts)) (\<lambda>t0.
                              case kids t0 ''langstring'' of
                                None \<Rightarrow> Inr a
                              | Some lss \<Rightarrow>
                                  bind (defined (first lss)) (\<lambda>l0.
                                    case text_of l0 of
                                      None \<Rightarrow> Inr a
                                    | Some t \<Rightarrow>
                                        if t = [] then Inr a
                                        else Inr ((push (Course t) a)
                                          \<lparr>metadata := (metadata a)\<lparr>meta_title := Some t\<rparr>\<rparr>)))))))"

definition item_details :: "xval \<Rightarrow> detail list" where
  "item_details item =
     (case attrs item of
        None \<Rightarrow> []
      | Some a \<Rightarrow>
          (case truthy_attr a ''identifierref'' of
             None \<Rightarrow> []
           | Some r \<Rightarrow>
               (case kids item ''title'' of
                  None \<Rightarrow> [ScoUntitled]
                | Some ts \<Rightarrow> [Sco (first ts)])))"

definition org_details :: "xval \<Rightarrow> detail list" where
  "org_details org =
     (case kids org ''item'' of None \<Rightarrow> [] | Some items \<Rightarrow> concat (map item_details items))"

definition analyze_organizations :: "xval \<Rightarrow> report \<Rightarrow> err + report" where
  "analyze_organizations manifest a =
     (case kids manifest ''organizations'' of
        None \<Rightarrow> Inr a
      | Some os \<Rightarrow>
          bind (defined (first os)) (\<lambda>o0.
            case kids o0 ''organization'' of
              None \<Rightarrow> Inr a
            | Some orgs \<Rightarrow>
                Inr (a\<lparr>details := details a @ [FoundOrganizations (length orgs)]
                                    @ concat (map org_details orgs)\<rparr>)))"

definition is_sco :: "xval \<Rightarrow> bool" where
  "is_sco res =
     (case attrs res of None \<Rightarrow> False | Some a \<Rightarrow> map_of a ''adlcp:scormtype'' = Some ''sco'')"

definition analyze_resources :: "xval \<Rightarrow> report \<Rightarrow> err + report" where
  "analyze_resources manifest a =
     (case kids manifest ''resources'' of
        None \<Rightarrow> Inr a
      | Some rs \<Rightarrow>
          bind (defined (first rs)) (\<lambda>r0.
            case kids r0 ''resource'' of
              None \<Rightarrow> Inr a
            | Some resources \<Rightarrow>
                (let scoResources = filter is_sco resources;
                     a1 = (if length scoResources > 0
                           then (push ContainsScoResources
                                   (push (FoundScoResources (length scoResources)) a))
                                  \<lparr>resumeCapable := True\<rparr>
                           else a)
                 in bind (defined (first resources)) (\<lambda>primary.
                      case attrs primary of
                        None \<Rightarrow> Inr a1
                      | Some pa \<Rightarrow>
                          (case truthy_attr pa ''href'' of
                             None \<Rightarrow> Inr a1
                           | Some h \<Rightarrow>
                               Inr (a1\<lparr>metadata := (metadata a1)\<lparr>meta_launchFile := Some h\<rparr>\<rparr>))))))"

text \<open>
  The scan of one script file: the labels it adds to \<open>apiCallsFound\<close> and whether it
  sets \<open>hasAPIReferences\<close>. A file whose data cannot be read is skipped.
\<close>

definition scan_js :: "zip_entry \<Rightarrow> string list \<times> bool" where
  "scan_js jsFile =
     (case snd jsFile of
        None \<Rightarrow> ([], False)
      | Some content \<Rightarrow>
          ((if js_includes content ''cmi.core.lesson_status''
               \<or> js_includes content ''cmi.completion_status'' then [''lesson_status''] else [])
           @ (if js_includes content ''cmi.suspend_data'' then [''suspend_data''] else [])
           @ (if js_includes content ''cmi.location'' then [''location''] else [])
           @ (if js_includes content ''API.LMSInitialize''
               \<or> js_includes content ''API_1484_11.Initialize'' then [''LMS_Initialize''] else []),
           js_includes content ''cmi.suspend_data'' \<or> js_includes content ''cmi.location''))"

fun scan_all :: "zip_entry list \<Rightarrow> string list \<times> bool \<Rightarrow> string list \<times> bool" where
  "scan_all [] acc = acc"
| "scan_all (f # fs) (apiCallsFound, hasAPIReferences) =
     scan_all fs (apiCallsFound @ fst (scan_js f), hasAPIReferences \<or> snd (scan_js f))"

text \<open>\<open>[...new Set(xs)]\<close>: the first occurrence of each element, in order.\<close>

definition unique :: "string list \<Rightarrow> string list" where
  "unique xs = rev (remdups (rev xs))"

definition is_manifest_entry :: "zip_entry \<Rightarrow> bool" where
  "is_manifest_entry e = endsWith (toLowerCase (fst e)) ''imsmanifest.xml''"

definition is_js_entry :: "zip_entry \<Rightarrow> bool" where
  "is_js_entry e = endsWith (toLowerCase (fst e)) ''.js''"

definition analyze_scripts :: "zip_entry list \<Rightarrow> report \<Rightarrow> report" where
  "analyze_scripts zipEntries a =
     (let jsFiles = filter is_js_entry zipEntries;
          (apiCallsFound, hasAPIReferences) = scan_all (take 10 jsFiles) ([], False);
          a1 = (if hasAPIReferences
                then push (FoundApiCalls (unique apiCallsFound)) (a\<lparr>resumeCapable := True\<rparr>)
                else a)
      in if \<not> resumeCapable a1 then push MayStillSupportResume (push NoIndicators a1) else a1)"

definition new_report :: report where
  "new_report = \<lparr>hasManifest = True, resumeCapable = False, details = [],
                 metadata = \<lparr>meta_version = None, meta_title = None, meta_launchFile = None\<rparr>\<rparr>"

text \<open>The body of the \<open>try\<close> block, after a manifest entry has been found.\<close>

definition analyze_manifest ::
  "(string \<Rightarrow> xdoc option) \<Rightarrow> zip_entry list \<Rightarrow> zip_entry \<Rightarrow> err + report" where
  "analyze_manifest parse zipEntries manifestEntry =
     (case snd manifestEntry of
        None \<Rightarrow> Inl ZipError
      | Some manifestContent \<Rightarrow>
          (case parse manifestContent of
             None \<Rightarrow> Inl ParseError
           | Some result \<Rightarrow>
               bind (root_manifest result) (\<lambda>manifest.
               bind (analyze_version manifest new_report) (\<lambda>a1.
               bind (analyze_title manifest a1) (\<lambda>a2.
               bind (analyze_organizations manifest a2) (\<lambda>a3.
               bind (analyze_resources manifest a3) (\<lambda>a4.
               Inr (analyze_scripts zipEntries a4))))))))"

definition analyzeSCORM :: "(string \<Rightarrow> xdoc option) \<Rightarrow> zip_entry list option \<Rightarrow> analysis" where
  "analyzeSCORM parse zipFile =
     (case zipFile of
        None \<Rightarrow> Failed (Message ZipError)
      | Some zipEntries \<Rightarrow>
          (case find is_manifest_entry zipEntries of
             None \<Rightarrow> Failed NoManifestFound
           | Some manifestEntry \<Rightarrow>
               (case analyze_manifest parse zipEntries manifestEntry of
                  Inl e \<Rightarrow> Failed (Message e)
                | Inr a \<Rightarrow> Analysis a)))"







fun is_api_line :: "detail \<Rightarrow> bool" where
  "is_api_line (FoundApiCalls calls) = True"
| "is_api_line d = False"

section \<open>Paths and the working directory\<close>

text \<open>
  Paths are absolute, as lists of names below the root. The working directory
  \<open>tmpDir\<close> holds the extracted tree; \<open>outside\<close> gives what is on disk anywhere else.
  Separators are those of a POSIX host.
\<close>

definition abs_str :: "string list \<Rightarrow> string" where
  "abs_str p = CHR ''/'' # path_join p"

fun split_slash :: "string \<Rightarrow> string list" where
  "split_slash [] = [[]]"
| "split_slash (c # cs) =
     (if c = CHR ''/'' then [] # split_slash cs
      else (case split_slash cs of [] \<Rightarrow> [[c]] | w # ws \<Rightarrow> (c # w) # ws))"

text \<open>\<open>path.join(dir, href)\<close>: the names of \<open>href\<close> are followed from \<open>dir\<close>.\<close>

fun normalize :: "string list \<Rightarrow> string list \<Rightarrow> string list" where
  "normalize dir [] = dir"
| "normalize dir (c # cs) =
     (if c = [] \<or> c = ''.'' then normalize dir cs
      else if c = ''..'' then normalize (butlast dir) cs
      else normalize (dir @ [c]) cs)"

definition join_href :: "string list \<Rightarrow> string \<Rightarrow> string list" where
  "join_href dir href = normalize dir (split_slash href)"

definition trailing_slash :: "string \<Rightarrow> bool" where
  "trailing_slash href = (href \<noteq> [] \<and> last href = CHR ''/'')"

text \<open>\<open>path.relative(from, to).replace(/\\/g, '/')\<close> for two absolute paths.\<close>

fun strip_common :: "string list \<Rightarrow> string list \<Rightarrow> string list \<times> string list" where
  "strip_common (a # as) (b # bs) = (if a = b then strip_common as bs else (a # as, b # bs))"
| "strip_common as bs = (as, bs)"

definition path_relative :: "string list \<Rightarrow> string list \<Rightarrow> string" where
  "path_relative from to =
     (case strip_common from to of
        (f, t) \<Rightarrow> unbackslash (path_join (replicate (length f) ''..'' @ t)))"

fun lookup_in :: "tree \<Rightarrow> string \<Rightarrow> string list \<Rightarrow> node option" where
  "lookup_in [] n ns = None"
| "lookup_in ((m, x) # es) n ns =
     (if m = n
      then (case ns of
              [] \<Rightarrow> Some x
            | k # ks \<Rightarrow> (case x of File c \<Rightarrow> None | Dir ds \<Rightarrow> lookup_in ds k ks))
      else lookup_in es n ns)"

definition lookup :: "tree \<Rightarrow> string list \<Rightarrow> node option" where
  "lookup t p = (case p of [] \<Rightarrow> Some (Dir t) | n # ns \<Rightarrow> lookup_in t n ns)"

definition node_at ::
  "(string list \<Rightarrow> node option) \<Rightarrow> string list \<Rightarrow> tree \<Rightarrow> string list \<Rightarrow> node option" where
  "node_at outside tmpDir t p =
     (if prefix tmpDir p then lookup t (drop (length tmpDir) p) else outside p)"

text \<open>
  \<open>fs.existsSync\<close> of a joined path. A path that ends in a slash names a directory.
\<close>

definition existsSync ::
  "(string list \<Rightarrow> node option) \<Rightarrow> string list \<Rightarrow> tree \<Rightarrow> string list \<Rightarrow> bool \<Rightarrow> bool" where
  "existsSync outside tmpDir t p trailing =
     (case node_at outside tmpDir t p of
        None \<Rightarrow> False
      | Some (File c) \<Rightarrow> \<not> trailing
      | Some (Dir ds) \<Rightarrow> True)"

definition readFileSync ::
  "(string list \<Rightarrow> node option) \<Rightarrow> string list \<Rightarrow> tree \<Rightarrow> string list \<Rightarrow> err + string" where
  "readFileSync outside tmpDir t p =
     (case node_at outside tmpDir t p of
        Some (File c) \<Rightarrow> Inr c
      | Some (Dir ds) \<Rightarrow> Inl IOError
      | None \<Rightarrow> Inl IOError)"

text \<open>
  \<open>fs.writeFileSync\<close> below the working directory: the file is replaced, or created at
  the end of its directory; writing fails where the path names a directory or runs
  through a file or a missing directory.
\<close>

fun write_in :: "tree \<Rightarrow> string \<Rightarrow> string list \<Rightarrow> string \<Rightarrow> tree option" where
  "write_in [] n ns data = (if ns = [] then Some [(n, File data)] else None)"
| "write_in ((m, x) # es) n ns data =
     (if m = n
      then (case ns of
              [] \<Rightarrow> (case x of File c \<Rightarrow> Some ((m, File data) # es) | Dir ds \<Rightarrow> None)
            | k # ks \<Rightarrow>
                (case x of
                   File c \<Rightarrow> None
                 | Dir ds \<Rightarrow> map_option (\<lambda>ds'. (m, Dir ds') # es) (write_in ds k ks data)))
      else map_option (\<lambda>es'. (m, x) # es') (write_in es n ns data))"

text \<open>A write outside the working directory leaves the tree as it is.\<close>

definition writeFileSync :: "string list \<Rightarrow> tree \<Rightarrow> string list \<Rightarrow> string \<Rightarrow> err + tree" where
  "writeFileSync tmpDir t p data =
     (if prefix tmpDir p
      then (case drop (length tmpDir) p of
              [] \<Rightarrow> Inl IOError
            | n # ns \<Rightarrow> (case write_in t n ns data of None \<Rightarrow> Inl IOError | Some t' \<Rightarrow> Inr t'))
      else Inr t)"

section \<open>Helpers of the repair\<close>

fun findFile :: "string list \<Rightarrow> tree \<Rightarrow> string \<Rightarrow> string list option" where
  "findFile dir [] filename = None"
| "findFile dir ((n, Dir ds) # es) filename =
     (case findFile (dir @ [n]) ds filename of
        Some found \<Rightarrow> Some found
      | None \<Rightarrow> findFile dir es filename)"
| "findFile dir ((n, File c) # es) filename =
     (if toLowerCase n = toLowerCase filename then Some (dir @ [n])
      else findFile dir es filename)"

definition LAUNCH_CANDIDATES :: "string list" where
  "LAUNCH_CANDIDATES =
     [''index_lms.html'', ''index_lms.htm'',
      ''story.html'', ''story.htm'',
      ''index.html'', ''index.htm'',
      ''launch.html'', ''launch.htm'',
      ''default.html'', ''default.htm'']"

fun findFirstHtml :: "string list \<Rightarrow> tree \<Rightarrow> string list option" where
  "findFirstHtml dir [] = None"
| "findFirstHtml dir ((n, Dir ds) # es) =
     (case findFirstHtml (dir @ [n]) ds of
        Some found \<Rightarrow> Some found
      | None \<Rightarrow> findFirstHtml dir es)"
| "findFirstHtml dir ((n, File c) # es) =
     (if html_name n then Some (dir @ [n]) else findFirstHtml dir es)"

fun first_candidate :: "string list \<Rightarrow> tree \<Rightarrow> string list \<Rightarrow> string list option" where
  "first_candidate dir t [] = None"
| "first_candidate dir t (candidate # cs) =
     (case findFile dir t candidate of
        Some found \<Rightarrow> Some found
      | None \<Rightarrow> first_candidate dir t cs)"

definition findLaunchFile :: "string list \<Rightarrow> tree \<Rightarrow> string list option" where
  "findLaunchFile dir t =
     (case first_candidate dir t LAUNCH_CANDIDATES of
        Some found \<Rightarrow> Some found
      | None \<Rightarrow> findFirstHtml dir t)"

definition dq :: string where
  "dq = [CHR 0x22]"

definition buildMinimalManifest :: "string \<Rightarrow> string" where
  "buildMinimalManifest launch =
     ''<?xml version='' @ dq @ ''1.0'' @ dq @ '' encoding='' @ dq @ ''UTF-8'' @ dq @ ''?>'' @ [newline]
   @ ''<manifest identifier='' @ dq @ ''course_manifest'' @ dq @ '' version='' @ dq @ ''1'' @ dq @ [newline]
   @ ''  xmlns='' @ dq @ ''http://www.imsproject.org/xsd/imscp_rootv1p1p2'' @ dq @ [newline]
   @ ''  xmlns:adlcp='' @ dq @ ''http://www.adlnet.org/xsd/adlcp_rootv1p2'' @ dq @ [newline]
   @ ''  xmlns:xsi='' @ dq @ ''http://www.w3.org/2001/XMLSchema-instance'' @ dq @ ''>'' @ [newline]
   @ ''  <metadata>'' @ [newline]
   @ ''    <schema>ADL SCORM</schema>'' @ [newline]
   @ ''    <schemaversion>1.2</schemaversion>'' @ [newline]
   @ ''  </metadata>'' @ [newline]
   @ ''  <organizations default='' @ dq @ ''org_1'' @ dq @ ''>'' @ [newline]
   @ ''    <organization identifier='' @ dq @ ''org_1'' @ dq @ ''>'' @ [newline]
   @ ''      <title>Course</title>'' @ [newline]
   @ ''      <item identifier='' @ dq @ ''item_1'' @ dq @ '' identifierref='' @ dq @ ''resource_1'' @ dq @ ''>'' @ [newline]
   @ ''        <title>Course</title>'' @ [newline]
   @ ''      </item>'' @ [newline]
   @ ''    </organization>'' @ [newline]
   @ ''  </organizations>'' @ [newline]
   @ ''  <resources>'' @ [newline]
   @ ''    <resource identifier='' @ dq @ ''resource_1'' @ dq @ '' type='' @ dq @ ''webcontent'' @ dq
       @ '' adlcp:scormtype='' @ dq @ ''sco'' @ dq @ '' href='' @ dq @ launch @ dq @ ''>'' @ [newline]
   @ ''      <file href='' @ dq @ launch @ dq @ ''/>'' @ [newline]
   @ ''    </resource>'' @ [newline]
   @ ''  </resources>'' @ [newline]
   @ ''</manifest>''"

text \<open>
  Assignments to a parsed object: a property that exists keeps its place, a new one goes
  to the end.
\<close>

fun assign :: "('k \<times> 'v) list \<Rightarrow> 'k \<Rightarrow> 'v \<Rightarrow> ('k \<times> 'v) list" where
  "assign [] k v = [(k, v)]"
| "assign ((k', v') # kvs) k v = (if k' = k then (k, v) # kvs else (k', v') # assign kvs k v)"

definition set_kids :: "xval \<Rightarrow> string \<Rightarrow> xval list \<Rightarrow> xval" where
  "set_kids v name xs = (case v of XStr s \<Rightarrow> XStr s | XObj a t ks \<Rightarrow> XObj a t (assign ks name xs))"

definition set_attrs :: "xval \<Rightarrow> (string \<times> string) list \<Rightarrow> xval" where
  "set_attrs v a' = (case v of XStr s \<Rightarrow> XStr s | XObj a t ks \<Rightarrow> XObj (Some a') t ks)"

section \<open>repairSCORM\<close>

text \<open>
  The entries pushed to \<open>repairs\<close> are kept as constructors, with the path they print
  where they print one. The function returns its report and the archive it writes to the
  output path; \<open>Inl\<close> is an exception that leaves the function, and then nothing has been
  written to the output path, since writing the archive is the last step.
\<close>

datatype repair_note =
  CreatedManifest
| RebuiltManifest
| AddedNamespace
| AddedMetadata
| SetScormtype
| FixedLaunch string
| CreatedResources string
| InjectedShim

record repair_result =
  success :: bool
  repairs :: "repair_note list"
  launchFile :: "string option"

definition minimal_manifest_for :: "string list \<Rightarrow> tree \<Rightarrow> string" where
  "minimal_manifest_for tmpDir t =
     buildMinimalManifest
       (case findLaunchFile tmpDir t of None \<Rightarrow> ''index.html'' | Some found \<Rightarrow> abs_str found)"

text \<open>Fix 1: find the manifest or write a minimal one.\<close>

definition find_or_create_manifest ::
  "(string list \<Rightarrow> node option) \<Rightarrow> string list \<Rightarrow> tree \<Rightarrow>
   err + (string list \<times> string \<times> tree \<times> repair_note list)" where
  "find_or_create_manifest outside tmpDir t =
     (case findFile tmpDir t ''imsmanifest.xml'' of
        None \<Rightarrow>
          (let manifestPath = tmpDir @ [''imsmanifest.xml''];
               manifestXml = minimal_manifest_for tmpDir t
           in bind (writeFileSync tmpDir t manifestPath manifestXml) (\<lambda>t'.
                Inr (manifestPath, manifestXml, t', [CreatedManifest])))
      | Some manifestPath \<Rightarrow>
          bind (readFileSync outside tmpDir t manifestPath) (\<lambda>manifestXml.
            Inr (manifestPath, manifestXml, t, [])))"

text \<open>Fix 2: parse the manifest; if that fails, parse a rebuilt minimal one.\<close>

definition parse_or_rebuild ::
  "(string \<Rightarrow> xdoc option) \<Rightarrow> string list \<Rightarrow> tree \<Rightarrow> string \<Rightarrow> err + (xdoc \<times> repair_note list)" where
  "parse_or_rebuild parse tmpDir t manifestXml =
     (case parse manifestXml of
        Some manifestObj \<Rightarrow> Inr (manifestObj, [])
      | None \<Rightarrow>
          (case parse (minimal_manifest_for tmpDir t) of
             None \<Rightarrow> Inl ParseError
           | Some manifestObj \<Rightarrow> Inr (manifestObj, [RebuiltManifest])))"

text \<open>
  Fix 3: the namespace on the root. On a manifest that is a string the assignment of
  \<open>$\<close> has no effect and the read that follows throws.
\<close>

definition fix_namespace :: "xval \<Rightarrow> err + (xval \<times> repair_note list)" where
  "fix_namespace manifest =
     (case manifest of
        XStr s \<Rightarrow> Inl TypeError
      | XObj a t ks \<Rightarrow>
          (let a0 = (case a of None \<Rightarrow> [] | Some x \<Rightarrow> x)
           in case truthy_attr a0 ''xmlns:adlcp'' of
                None \<Rightarrow>
                  Inr (XObj (Some (assign a0 ''xmlns:adlcp'' ''http://www.adlnet.org/xsd/adlcp_rootv1p2''))
                         t ks, [AddedNamespace])
              | Some ns \<Rightarrow> Inr (XObj (Some a0) t ks, [])))"

text \<open>Fix 4: the metadata block.\<close>

definition fix_metadata :: "xval \<Rightarrow> xval \<times> repair_note list" where
  "fix_metadata manifest =
     (case kids manifest ''metadata'' of
        None \<Rightarrow>
          (set_kids manifest ''metadata''
             [XObj None None [(''schema'', [XStr ''ADL SCORM'']), (''schemaversion'', [XStr ''1.2''])]],
           [AddedMetadata])
      | Some md \<Rightarrow> (manifest, []))"

text \<open>Fix 5: the primary resource and its launch file, or a new resources block.\<close>

definition fix_primary ::
  "(string list \<Rightarrow> node option) \<Rightarrow> string list \<Rightarrow> tree \<Rightarrow> string list \<Rightarrow> xval \<Rightarrow>
   xval \<times> string option \<times> repair_note list" where
  "fix_primary outside tmpDir t manifestPath primary =
     (case attrs primary of
        None \<Rightarrow> (primary, None, [])
      | Some pa \<Rightarrow>
          (let (pa1, n1) =
                 (case truthy_attr pa ''adlcp:scormtype'' of
                    None \<Rightarrow> (assign pa ''adlcp:scormtype'' ''sco'', [SetScormtype])
                  | Some ty \<Rightarrow> (pa, []))
           in case truthy_attr pa1 ''href'' of
                None \<Rightarrow> (set_attrs primary pa1, None, n1)
              | Some declaredHref \<Rightarrow>
                  if \<not> existsSync outside tmpDir t
                         (join_href (butlast manifestPath) declaredHref) (trailing_slash declaredHref)
                  then (case findLaunchFile tmpDir t of
                          None \<Rightarrow> (set_attrs primary pa1, None, n1)
                        | Some found \<Rightarrow>
                            (let rel = path_relative (butlast manifestPath) found
                             in (set_attrs primary (assign pa1 ''href'' rel), Some rel,
                                 n1 @ [FixedLaunch rel])))
                  else (set_attrs primary pa1, Some declaredHref, n1)))"

definition create_resources ::
  "string list \<Rightarrow> tree \<Rightarrow> string list \<Rightarrow> xval \<Rightarrow> xval \<times> string option \<times> repair_note list" where
  "create_resources tmpDir t manifestPath manifest =
     (let href = (case findLaunchFile tmpDir t of
                    Some found \<Rightarrow> path_relative (butlast manifestPath) found
                  | None \<Rightarrow> ''index.html'')
      in (set_kids manifest ''resources''
            [XObj None None
               [(''resource'',
                 [XObj (Some [(''identifier'', ''resource_1''), (''type'', ''webcontent''),
                              (''adlcp:scormtype'', ''sco''), (''href'', href)]) None []])]],
          Some href, [CreatedResources href]))"

definition fix_resources ::
  "(string list \<Rightarrow> node option) \<Rightarrow> string list \<Rightarrow> tree \<Rightarrow> string list \<Rightarrow> xval \<Rightarrow>
   err + (xval \<times> string option \<times> repair_note list)" where
  "fix_resources outside tmpDir t manifestPath manifest =
     (case kids manifest ''resources'' of
        None \<Rightarrow> Inr (create_resources tmpDir t manifestPath manifest)
      | Some rs \<Rightarrow>
          bind (defined (first rs)) (\<lambda>r0.
            case kids r0 ''resource'' of
              None \<Rightarrow> Inr (create_resources tmpDir t manifestPath manifest)
            | Some resources \<Rightarrow>
                bind (defined (first resources)) (\<lambda>primary.
                  case fix_primary outside tmpDir t manifestPath primary of
                    (primary', launch, notes) \<Rightarrow>
                      Inr (set_kids manifest ''resources''
                             (set_kids r0 ''resource'' (primary' # tl resources) # tl rs),
                           launch, notes))))"

text \<open>Fix 6: the script tag for the shim in the launch page.\<close>

definition shimTag :: string where
  "shimTag = ''<script src='' @ dq @ ''/scorm-api-shim.js'' @ dq @ ''></script>'' @ [newline]"

definition inject_tag :: "string \<Rightarrow> string" where
  "inject_tag html =
     (if js_includes html ''<head>''
        then js_replace html ''<head>'' (''<head>'' @ [newline] @ shimTag)
      else if js_includes html ''</head>''
        then js_replace html ''</head>'' (shimTag @ ''</head>'')
      else shimTag @ html)"

definition full_str :: "string list \<Rightarrow> bool \<Rightarrow> string" where
  "full_str p trailing = (if trailing \<and> p \<noteq> [] then abs_str p @ ''/'' else abs_str p)"

definition inject_launch ::
  "(string list \<Rightarrow> node option) \<Rightarrow> string list \<Rightarrow> tree \<Rightarrow> string list \<Rightarrow> string option \<Rightarrow>
   err + (tree \<times> repair_note list)" where
  "inject_launch outside tmpDir t manifestPath launch =
     (case launch of
        None \<Rightarrow> Inr (t, [])
      | Some lf \<Rightarrow>
          if lf = [] then Inr (t, [])
          else
            (let launchFullPath = join_href (butlast manifestPath) lf;
                 trailing = trailing_slash lf
             in if existsSync outside tmpDir t launchFullPath trailing
                   \<and> html_name (full_str launchFullPath trailing)
                then bind (readFileSync outside tmpDir t launchFullPath) (\<lambda>html.
                       if \<not> js_includes html ''scorm-api-shim.js''
                       then bind (writeFileSync tmpDir t launchFullPath (inject_tag html)) (\<lambda>t'.
                              Inr (t', [InjectedShim]))
                       else Inr (t, []))
                else Inr (t, [])))"

text \<open>\<open>builder.buildObject(manifestObj)\<close>, which throws on an object it cannot serialise.\<close>

definition buildObject :: "(xdoc \<Rightarrow> string option) \<Rightarrow> xdoc \<Rightarrow> err + string" where
  "buildObject build manifestObj =
     (case build manifestObj of None \<Rightarrow> Inl BuildError | Some repairedXml \<Rightarrow> Inr repairedXml)"

definition repairSCORM ::
  "(string \<Rightarrow> xdoc option) \<Rightarrow> (xdoc \<Rightarrow> string option) \<Rightarrow> (string list \<Rightarrow> node option) \<Rightarrow>
   string list \<Rightarrow> tree option \<Rightarrow> err + (repair_result \<times> archive)" where
  "repairSCORM parse build outside tmpDir zipFile =
     (case zipFile of
        None \<Rightarrow> Inl ZipError
      | Some t0 \<Rightarrow>
          bind (find_or_create_manifest outside tmpDir t0) (\<lambda>(manifestPath, manifestXml, t1, n1).
          bind (parse_or_rebuild parse tmpDir t1 manifestXml) (\<lambda>(manifestObj, n2).
          bind (root_manifest manifestObj) (\<lambda>m0.
          bind (fix_namespace m0) (\<lambda>(m1, n3).
          case fix_metadata m1 of (m2, n4) \<Rightarrow>
          bind (fix_resources outside tmpDir t1 manifestPath m2) (\<lambda>(m3, launch, n5).
          bind (inject_launch outside tmpDir t1 manifestPath launch) (\<lambda>(t2, n6).
          bind (buildObject build (XRoot ''manifest'' m3)) (\<lambda>repairedXml.
          bind (writeFileSync tmpDir t2 manifestPath repairedXml) (\<lambda>t3.
            Inr (\<lparr>success = True, repairs = n1 @ n2 @ n3 @ n4 @ n5 @ n6, launchFile = launch\<rparr>,
                 addDirToZip [] [] t3))))))))))"



section \<open>Batch endpoints\<close>

text \<open>
  What the handlers read from disk is a parameter: the entries of the archive at a path
  (\<open>None\<close> where \<open>AdmZip\<close> cannot open it), the tree its extraction gives (\<open>None\<close>
  where extraction throws), the tree a written archive unpacks to, the size \<open>statSync\<close>
  reports (\<open>None\<close> where it throws) and the listing of a folder. The random session
  identifiers and working directories are given by the position of the archive in the
  run. A JSON response is a record whose optional keys are options.
\<close>

datatype folder = NoFolder | NotDirectory | Listing "string list"

record disk =
  d_entries :: "string \<Rightarrow> zip_entry list option"
  d_extract :: "string \<Rightarrow> tree option"
  d_unpack :: "archive \<Rightarrow> tree option"
  d_size :: "string \<Rightarrow> nat option"
  d_list :: "string \<Rightarrow> folder"

record summary =
  totalFiles :: nat
  successfullyAnalyzed :: nat
  resumeCapableFiles :: nat
  failed :: nat
  summaryFolder :: string

record 'e batch_response =
  batch_success :: bool
  batch_folder :: "string option"
  batch_summary :: "summary option"
  results :: "'e list"

datatype 'a response = BadRequest string | Json 'a

definition is_batch_zip :: "string \<Rightarrow> bool" where
  "is_batch_zip f =
     (endsWith (toLowerCase f) ''.zip'' \<and> \<not> endsWith (toLowerCase f) ''_repaired.zip'')"

text \<open>\<open>path.basename(zipFile, '.zip')\<close> of a bare file name.\<close>

definition basename_zip :: "string \<Rightarrow> string" where
  "basename_zip f = (if endsWith f ''.zip'' then take (length f - 4) f else f)"

text \<open>
  \<open>createUpdatedZip\<close>: extract, inline the shim and then the tracker, repack. It returns
  the name of the archive it wrote, here with the archive.
\<close>

definition createUpdatedZip ::
  "string \<Rightarrow> string \<Rightarrow> disk \<Rightarrow> string \<Rightarrow> string \<Rightarrow> err + (string \<times> archive)" where
  "createUpdatedZip shimSrc trackerSrc dsk zipPath origName =
     (case d_extract dsk zipPath of
        None \<Rightarrow> Inl ZipError
      | Some tmpTree \<Rightarrow>
          Inr (origName @ ''_updated.zip'',
               addDirToZip [] []
                 (injectTrackerIntoDir trackerSrc (injectShimIntoDir shimSrc tmpTree))))"

subsection \<open>The analyze path\<close>

record analysis_entry =
  ae_filename :: string
  ae_path :: string
  ae_size :: "nat option"
  ae_analysis :: analysis
  ae_updatedFile :: "string option"

text \<open>The \<open>success\<close> field of an entry, which the spread of the analysis gives it.\<close>

definition ae_success :: "analysis_entry \<Rightarrow> bool" where
  "ae_success e = (case ae_analysis e of Failed f \<Rightarrow> False | Analysis a \<Rightarrow> True)"

definition ae_resume :: "analysis_entry \<Rightarrow> bool" where
  "ae_resume e = (case ae_analysis e of Failed f \<Rightarrow> False | Analysis a \<Rightarrow> resumeCapable a)"

fun analyze_loop ::
  "(string \<Rightarrow> xdoc option) \<Rightarrow> string \<Rightarrow> string \<Rightarrow> disk \<Rightarrow> string \<Rightarrow> string list \<Rightarrow>
   analysis_entry list \<times> nat \<times> nat \<times> nat \<Rightarrow> analysis_entry list \<times> nat \<times> nat \<times> nat" where
  "analyze_loop parse shimSrc trackerSrc dsk folderPath [] st = st"
| "analyze_loop parse shimSrc trackerSrc dsk folderPath (zipFile # rest)
     (rs, successCount, resumeCapableCount, failedCount) =
     (let zipPath = path_join [folderPath, zipFile];
          analysis = analyzeSCORM parse (d_entries dsk zipPath);
          updatedFile =
            (case createUpdatedZip shimSrc trackerSrc dsk zipPath (basename_zip zipFile) of
               Inl e \<Rightarrow> None
             | Inr (name, z) \<Rightarrow> Some name)
      in case d_size dsk zipPath of
           None \<Rightarrow>
             analyze_loop parse shimSrc trackerSrc dsk folderPath rest
               (rs @ [\<lparr>ae_filename = zipFile, ae_path = zipPath, ae_size = None,
                       ae_analysis = Failed (Message IOError), ae_updatedFile = None\<rparr>],
                successCount, resumeCapableCount, failedCount + 1)
         | Some sz \<Rightarrow>
             analyze_loop parse shimSrc trackerSrc dsk folderPath rest
               (rs @ [\<lparr>ae_filename = zipFile, ae_path = zipPath, ae_size = Some sz,
                       ae_analysis = analysis, ae_updatedFile = updatedFile\<rparr>],
                (case analysis of Analysis a \<Rightarrow> successCount + 1 | Failed f \<Rightarrow> successCount),
                (case analysis of
                   Analysis a \<Rightarrow> if resumeCapable a then resumeCapableCount + 1 else resumeCapableCount
                 | Failed f \<Rightarrow> resumeCapableCount),
                (case analysis of Analysis a \<Rightarrow> failedCount | Failed f \<Rightarrow> failedCount + 1)))"

definition analyze_folder ::
  "(string \<Rightarrow> xdoc option) \<Rightarrow> string \<Rightarrow> string \<Rightarrow> disk \<Rightarrow> string \<Rightarrow>
   analysis_entry batch_response response" where
  "analyze_folder parse shimSrc trackerSrc dsk folderPath =
     (if folderPath = [] then BadRequest ''No folder path provided''
      else case d_list dsk folderPath of
        NoFolder \<Rightarrow> BadRequest ''Folder path does not exist''
      | NotDirectory \<Rightarrow> BadRequest ''Path is not a directory''
      | Listing files \<Rightarrow>
          (let zipFiles = filter is_batch_zip files
           in if length zipFiles = 0 then BadRequest ''No ZIP files found in the folder''
              else case analyze_loop parse shimSrc trackerSrc dsk folderPath zipFiles ([], 0, 0, 0) of
                (rs, successCount, resumeCapableCount, failedCount) \<Rightarrow>
                  Json \<lparr>batch_success = True, batch_folder = None,
                        batch_summary =
                          Some \<lparr>totalFiles = length zipFiles, successfullyAnalyzed = successCount,
                                resumeCapableFiles = resumeCapableCount, failed = failedCount,
                                summaryFolder = folderPath\<rparr>,
                        results = rs\<rparr>))"

text \<open>The entry the loop makes of one archive, as a function of that archive alone.\<close>

definition analyze_entry ::
  "(string \<Rightarrow> xdoc option) \<Rightarrow> string \<Rightarrow> string \<Rightarrow> disk \<Rightarrow> string \<Rightarrow> string \<Rightarrow> analysis_entry" where
  "analyze_entry parse shimSrc trackerSrc dsk folderPath zipFile =
     (let zipPath = path_join [folderPath, zipFile]
      in case d_size dsk zipPath of
           None \<Rightarrow>
             \<lparr>ae_filename = zipFile, ae_path = zipPath, ae_size = None,
              ae_analysis = Failed (Message IOError), ae_updatedFile = None\<rparr>
         | Some sz \<Rightarrow>
             \<lparr>ae_filename = zipFile, ae_path = zipPath, ae_size = Some sz,
              ae_analysis = analyzeSCORM parse (d_entries dsk zipPath),
              ae_updatedFile =
                (case createUpdatedZip shimSrc trackerSrc dsk zipPath (basename_zip zipFile) of
                   Inl e \<Rightarrow> None
                 | Inr (name, z) \<Rightarrow> Some name)\<rparr>)"

subsection \<open>The repair path\<close>

record repair_entry =
  re_filename :: string
  re_success :: bool
  re_repairs :: "repair_note list"
  re_launchFile :: "string option"
  re_error :: "err option"
  re_sessionId :: "string option"
  re_playerUrl :: "string option"
  re_repairedFile :: "string option"

definition failure_entry :: "string \<Rightarrow> err \<Rightarrow> repair_entry" where
  "failure_entry zipFile e =
     \<lparr>re_filename = zipFile, re_success = False, re_repairs = [], re_launchFile = None,
      re_error = Some e, re_sessionId = None, re_playerUrl = None, re_repairedFile = None\<rparr>"

definition playerUrl :: "string \<Rightarrow> string option \<Rightarrow> string" where
  "playerUrl sessionId launch =
     ''/play/'' @ sessionId @ ''/''
       @ (case launch of None \<Rightarrow> ''index.html'' | Some l \<Rightarrow> if l = [] then ''index.html'' else l)"

text \<open>
  The body of the loop for the archive at position \<open>i\<close>: the repair, then the player
  session (unpack the repaired archive, inline the shim), then the entry. An exception in
  either step gives the entry of the \<open>catch\<close> block.
\<close>

definition repair_item ::
  "(string \<Rightarrow> xdoc option) \<Rightarrow> (xdoc \<Rightarrow> string option) \<Rightarrow> (string list \<Rightarrow> node option) \<Rightarrow>
   (nat \<Rightarrow> string list) \<Rightarrow> (nat \<Rightarrow> string) \<Rightarrow> string \<Rightarrow> disk \<Rightarrow> string \<Rightarrow>
   nat \<Rightarrow> string \<Rightarrow> repair_entry" where
  "repair_item parse build outside tmpDirs sessionIds shimSrc dsk folderPath i zipFile =
     (let zipPath = path_join [folderPath, zipFile];
          sessionId = sessionIds i;
          origName = basename_zip zipFile
      in case repairSCORM parse build outside (tmpDirs i) (d_extract dsk zipPath) of
           Inl e \<Rightarrow> failure_entry zipFile e
         | Inr (result, repairedZip) \<Rightarrow>
             (case (if success result
                    then (case d_unpack dsk repairedZip of
                            None \<Rightarrow> Inl ZipError
                          | Some sessionDir \<Rightarrow> Inr (Some (injectShimIntoSession shimSrc sessionDir)))
                    else Inr None) of
                Inl e \<Rightarrow> failure_entry zipFile e
              | Inr session \<Rightarrow>
                  \<lparr>re_filename = zipFile, re_success = success result,
                   re_repairs = repairs result, re_launchFile = launchFile result,
                   re_error = None,
                   re_sessionId = (if success result then Some sessionId else None),
                   re_playerUrl =
                     (if success result then Some (playerUrl sessionId (launchFile result)) else None),
                   re_repairedFile =
                     (if success result then Some (origName @ ''_repaired.zip'') else None)\<rparr>))"

fun repair_loop ::
  "(string \<Rightarrow> xdoc option) \<Rightarrow> (xdoc \<Rightarrow> string option) \<Rightarrow> (string list \<Rightarrow> node option) \<Rightarrow>
   (nat \<Rightarrow> string list) \<Rightarrow> (nat \<Rightarrow> string) \<Rightarrow> string \<Rightarrow> disk \<Rightarrow> string \<Rightarrow>
   nat \<Rightarrow> string list \<Rightarrow> repair_entry list \<Rightarrow> repair_entry list" where
  "repair_loop parse build outside tmpDirs sessionIds shimSrc dsk folderPath i [] rs = rs"
| "repair_loop parse build outside tmpDirs sessionIds shimSrc dsk folderPath i (zipFile # rest) rs =
     repair_loop parse build outside tmpDirs sessionIds shimSrc dsk folderPath (Suc i) rest
       (rs @ [repair_item parse build outside tmpDirs sessionIds shimSrc dsk folderPath i zipFile])"

definition repair_folder ::
  "(string \<Rightarrow> xdoc option) \<Rightarrow> (xdoc \<Rightarrow> string option) \<Rightarrow> (string list \<Rightarrow> node option) \<Rightarrow>
   (nat \<Rightarrow> string list) \<Rightarrow> (nat \<Rightarrow> string) \<Rightarrow> string \<Rightarrow> disk \<Rightarrow> string \<Rightarrow>
   repair_entry batch_response response" where
  "repair_folder parse build outside tmpDirs sessionIds shimSrc dsk folderPath =
     (if folderPath = [] then BadRequest ''No folder path provided''
      else case d_list dsk folderPath of
        NoFolder \<Rightarrow> BadRequest ''Folder does not exist''
      | NotDirectory \<Rightarrow> BadRequest ''Path is not a directory''
      | Listing files \<Rightarrow>
          (let zipFiles = filter is_batch_zip files
           in if length zipFiles = 0 then BadRequest ''No ZIP files found''
              else Json \<lparr>batch_success = True, batch_folder = Some folderPath,
                         batch_summary = None,
                         results = repair_loop parse build outside tmpDirs sessionIds shimSrc dsk
                                     folderPath 0 zipFiles []\<rparr>))"

text \<open>
  \<open>displayBatchRepairResults\<close> of the page script: the summary shown and kept for a
  repair run is computed from the results of the response.
\<close>

definition displayBatchRepairResults :: "repair_entry batch_response \<Rightarrow> summary \<times> repair_entry list" where
  "displayBatchRepairResults data =
     (let rs = results data;
          repaired = length (filter re_success rs);
          failedCount = length (filter (\<lambda>r. \<not> re_success r) rs);
          playable = length (filter (\<lambda>r. case re_sessionId r of None \<Rightarrow> False | Some s \<Rightarrow> s \<noteq> []) rs)
      in (\<lparr>totalFiles = length rs, successfullyAnalyzed = repaired, resumeCapableFiles = playable,
           failed = failedCount,
           summaryFolder = (case batch_folder data of None \<Rightarrow> [] | Some f \<Rightarrow> f)\<rparr>, rs))"

section \<open>Sample packages\<close>

text \<open>
  Concrete inputs for the examples below: a working directory, nothing of interest on
  the rest of the disk, two folders of archives, and a few manifests with the objects
  \<open>xml2js\<close> makes of them, before and after the repair. The sample builder knows the
  repaired manifests and refuses every other object; the sample parser knows the texts
  listed here, reads the builder's texts back, and rejects every other text.
\<close>

definition sample_tmp :: "string list" where
  "sample_tmp = [''tmp'', ''scorm_repair_0a1b2c3d4e5f'']"

definition no_outside :: "string list \<Rightarrow> node option" where
  "no_outside p = None"

definition xml_attr :: "string \<Rightarrow> string \<Rightarrow> string" where
  "xml_attr name v = '' '' @ name @ ''='' @ dq @ v @ dq"

definition broken_launch_xml :: string where
  "broken_launch_xml =
     ''<manifest><resources><resource identifier='' @ dq @ ''r1'' @ dq @ '' href='' @ dq
       @ ''missing.html'' @ dq @ ''/></resources></manifest>''"

definition broken_launch_manifest :: xval where
  "broken_launch_manifest =
     XObj None None
       [(''resources'',
         [XObj None None
            [(''resource'',
              [XObj (Some [(''identifier'', ''r1''), (''href'', ''missing.html'')]) None []])]])]"

definition folder_launch_xml :: string where
  "folder_launch_xml =
     ''<manifest><resources><resource'' @ xml_attr ''identifier'' ''r1''
       @ xml_attr ''href'' ''content'' @ ''/></resources></manifest>''"

definition folder_launch_manifest :: xval where
  "folder_launch_manifest =
     XObj None None
       [(''resources'',
         [XObj None None
            [(''resource'',
              [XObj (Some [(''identifier'', ''r1''), (''href'', ''content'')]) None []])]])]"

definition sco_xml :: string where
  "sco_xml =
     ''<manifest><resources><resource'' @ xml_attr ''identifier'' ''r1''
       @ xml_attr ''adlcp:scormtype'' ''sco'' @ ''/></resources></manifest>''"

definition sco_manifest :: xval where
  "sco_manifest =
     XObj None None
       [(''resources'',
         [XObj None None
            [(''resource'',
              [XObj (Some [(''identifier'', ''r1''), (''adlcp:scormtype'', ''sco'')]) None []])]])]"

definition bare_resource_xml :: string where
  "bare_resource_xml = ''<manifest><resources><resource><file/></resource></resources></manifest>''"

definition bare_resource_manifest :: xval where
  "bare_resource_manifest =
     XObj None None
       [(''resources'',
         [XObj None None [(''resource'', [XObj None None [(''file'', [XStr ''''])]])]])]"

definition plain_xml :: string where
  "plain_xml = ''<manifest><resources><resource/></resources></manifest>''"

definition plain_manifest :: xval where
  "plain_manifest =
     XObj None None [(''resources'', [XObj None None [(''resource'', [XStr ''''])]])]"

text \<open>The same manifests after the repair, as objects and as text.\<close>

definition repaired_root :: "xval list \<Rightarrow> xval" where
  "repaired_root resources =
     XObj (Some [(''xmlns:adlcp'', ''http://www.adlnet.org/xsd/adlcp_rootv1p2'')]) None
       [(''resources'', [XObj None None [(''resource'', resources)]]),
        (''metadata'',
         [XObj None None [(''schema'', [XStr ''ADL SCORM'']), (''schemaversion'', [XStr ''1.2''])]])]"

definition repaired_text :: "string \<Rightarrow> string" where
  "repaired_text resources =
     ''<manifest'' @ xml_attr ''xmlns:adlcp'' ''http://www.adlnet.org/xsd/adlcp_rootv1p2''
       @ ''><resources>'' @ resources @ ''</resources><metadata><schema>ADL SCORM</schema>''
       @ ''<schemaversion>1.2</schemaversion></metadata></manifest>''"

definition launch_resource :: "string \<Rightarrow> xval" where
  "launch_resource href =
     XObj (Some [(''identifier'', ''r1''), (''href'', href), (''adlcp:scormtype'', ''sco'')]) None []"

definition launch_resource_text :: "string \<Rightarrow> string" where
  "launch_resource_text href =
     ''<resource'' @ xml_attr ''identifier'' ''r1'' @ xml_attr ''href'' href
       @ xml_attr ''adlcp:scormtype'' ''sco'' @ ''/>''"

definition build_table :: "(xdoc \<times> string) list" where
  "build_table =
     [(XRoot ''manifest'' (repaired_root [launch_resource ''story.html'']),
       repaired_text (launch_resource_text ''story.html'')),
      (XRoot ''manifest'' (repaired_root [launch_resource ''index.html'']),
       repaired_text (launch_resource_text ''index.html'')),
      (XRoot ''manifest'' (repaired_root [launch_resource ''missing.html'']),
       repaired_text (launch_resource_text ''missing.html'')),
      (XRoot ''manifest'' (repaired_root [launch_resource ''content'']),
       repaired_text (launch_resource_text ''content'')),
      (XRoot ''manifest'' (repaired_root [XObj None None [(''file'', [XStr ''''])]]),
       repaired_text ''<resource><file/></resource>''),
      (XRoot ''manifest'' (repaired_root [XStr '''']),
       repaired_text ''<resource/>'')]"

definition sample_build :: "xdoc \<Rightarrow> string option" where
  "sample_build = map_of build_table"

definition parse_table :: "(string \<times> xdoc) list" where
  "parse_table =
     [(broken_launch_xml, XRoot ''manifest'' broken_launch_manifest),
      (folder_launch_xml, XRoot ''manifest'' folder_launch_manifest),
      (sco_xml, XRoot ''manifest'' sco_manifest),
      (bare_resource_xml, XRoot ''manifest'' bare_resource_manifest),
      (plain_xml, XRoot ''manifest'' plain_manifest),
      (''<course/>'', XRoot ''course'' (XStr '''')),
      (''<manifest/>'', XRoot ''manifest'' (XStr ''''))]
     @ map (\<lambda>(d, text). (text, d)) build_table"

definition sample_parse :: "string \<Rightarrow> xdoc option" where
  "sample_parse = map_of parse_table"

definition sample_disk :: disk where
  "sample_disk =
     \<lparr>d_entries = map_of [(''courses/a.zip'', [(''imsmanifest.xml'', Some plain_xml)])],
      d_extract = map_of [(''courses/a.zip'', [(''imsmanifest.xml'', File plain_xml)])],
      d_unpack = (\<lambda>z. Some (map (\<lambda>(name, data). (name, File data)) z)),
      d_size = map_of [(''courses/a.zip'', 120)],
      d_list = (\<lambda>p. if p = ''courses''
                     then Listing [''a.zip'', ''notes.txt'', ''b.zip'', ''a_repaired.zip'']
                     else NoFolder)\<rparr>"


text \<open>
  The spec's words for a manifest document: a file whose name, at any depth, is
  \<open>imsmanifest.xml\<close> without regard to case.
\<close>

definition named_manifest :: "zip_entry \<Rightarrow> bool" where
  "named_manifest e = (toLowerCase (last (split_slash (fst e))) = ''imsmanifest.xml'')"

section \<open>Repacking keeps the set of file paths\<close>

lemma addDirToZip_files:
  "addDirToZip z cur t = z @ map (\<lambda>(p, c). (unbackslash (path_join p), c)) (tree_files cur t)"
  by (induction z cur t rule: addDirToZip.induct) (simp_all add: addFile_def)

lemma sep_split:
  "c \<notin> set a \<Longrightarrow> c \<notin> set b \<Longrightarrow> a @ c # x = b @ c # y \<Longrightarrow> a = b \<and> x = y"
proof (induction a arbitrary: b)
  case Nil
  then show ?case by (cases b) auto
next
  case (Cons h a)
  then show ?case by (cases b) auto
qed

lemma path_join_inj:
  "\<forall>n\<in>set p. CHR ''/'' \<notin> set n \<Longrightarrow> \<forall>n\<in>set q. CHR ''/'' \<notin> set n \<Longrightarrow>
   p \<noteq> [] \<Longrightarrow> q \<noteq> [] \<Longrightarrow> path_join p = path_join q \<Longrightarrow> p = q"
proof (induction p arbitrary: q rule: path_join.induct)
  case 1
  then show ?case by simp
next
  case (2 n)
  then show ?case by (cases q rule: path_join.cases) auto
next
  case (3 n m ns)
  show ?case
  proof (cases q rule: path_join.cases)
    case 1
    with 3 show ?thesis by simp
  next
    case (2 k)
    with 3 show ?thesis by auto
  next
    case (3 k l ks)
    from "3.prems" 3 have eq: "n @ CHR ''/'' # path_join (m # ns) = k @ CHR ''/'' # path_join (l # ks)"
      by simp
    from "3.prems" 3 have "CHR ''/'' \<notin> set n" "CHR ''/'' \<notin> set k" by auto
    from sep_split[OF this eq] have nk: "n = k" and r: "path_join (m # ns) = path_join (l # ks)" by auto
    from "3.IH"[of "l # ks"] "3.prems" 3 r have "m # ns = l # ks" by auto
    with nk 3 show ?thesis by simp
  qed
qed

lemma unbackslash_id: "CHR 0x5C \<notin> set s \<Longrightarrow> unbackslash s = s"
  by (induction s) (auto simp: unbackslash_def)

lemma set_path_join: "set (path_join p) \<subseteq> insert CHR ''/'' (\<Union>(set ` set p))"
  by (induction p rule: path_join.induct) auto

lemma tree_files_shape:
  "(p, c) \<in> set (tree_files cur t) \<Longrightarrow> \<exists>m r. p = cur @ m # r \<and> m \<in> fst ` set t"
proof (induction cur t rule: tree_files.induct)
  case (1 cur)
  then show ?case by simp
next
  case (2 cur n c' es)
  then show ?case by force
next
  case (3 cur n ds es)
  then show ?case by force
qed

lemma tree_files_names:
  "wf_tree t \<Longrightarrow> \<forall>n\<in>set cur. name_ok n \<Longrightarrow> (p, c) \<in> set (tree_files cur t) \<Longrightarrow>
   \<forall>n\<in>set p. name_ok n"
  by (induction cur t rule: tree_files.induct) auto

lemma tree_files_distinct:
  "wf_tree t \<Longrightarrow> distinct (map fst (tree_files cur t))"
proof (induction cur t rule: tree_files.induct)
  case (1 cur)
  then show ?case by simp
next
  case (2 cur n c es)
  have "cur @ [n] \<notin> fst ` set (tree_files cur es)"
  proof
    assume "cur @ [n] \<in> fst ` set (tree_files cur es)"
    then obtain c' where "(cur @ [n], c') \<in> set (tree_files cur es)" by auto
    from tree_files_shape[OF this] obtain m r where "cur @ [n] = cur @ m # r" "m \<in> fst ` set es"
      by blast
    with 2 show False by auto
  qed
  with 2 show ?case by simp
next
  case (3 cur n ds es)
  have "fst ` set (tree_files (cur @ [n]) ds) \<inter> fst ` set (tree_files cur es) = {}"
  proof (rule ccontr)
    assume "\<not> ?thesis"
    then obtain p c1 c2 where a: "(p, c1) \<in> set (tree_files (cur @ [n]) ds)"
      and b: "(p, c2) \<in> set (tree_files cur es)" by fastforce
    from tree_files_shape[OF a] obtain m r where p1: "p = (cur @ [n]) @ m # r" by blast
    from tree_files_shape[OF b] obtain m' r' where p2: "p = cur @ m' # r'" "m' \<in> fst ` set es" by blast
    from p1 p2 have "m' = n" by simp
    with p2 3 show False by auto
  qed
  with 3 show ?case by simp
qed

text \<open>
  C9. Repacking a tree with \<open>addDirToZip\<close> yields an archive whose entry names are
  exactly the relative paths of the files of the tree, each once, with the file's data:
  no file is dropped and none is duplicated.
\<close>

theorem addDirToZip_roundtrip:
  assumes "wf_tree t"
  shows "set (map fst (addDirToZip [] [] t)) = path_join ` set (map fst (tree_files [] t))
       \<and> distinct (map fst (addDirToZip [] [] t))
       \<and> length (addDirToZip [] [] t) = length (tree_files [] t)
       \<and> (\<forall>(p, c) \<in> set (tree_files [] t). map_of (addDirToZip [] [] t) (path_join p) = Some c)"
proof -
  let ?fs = "tree_files [] t"
  have ok: "\<forall>n\<in>set p. name_ok n" if "(p, c) \<in> set ?fs" for p c
    using tree_files_names[OF assms _ that] by simp
  have ne: "p \<noteq> []" if "(p, c) \<in> set ?fs" for p c
    using tree_files_shape[OF that] by auto
  have ub: "unbackslash (path_join p) = path_join p" if "(p, c) \<in> set ?fs" for p c
  proof (rule unbackslash_id)
    from ok[OF that] set_path_join[of p] show "CHR 0x5C \<notin> set (path_join p)"
      by (auto simp: name_ok_def)
  qed
  have z: "addDirToZip [] [] t = map (\<lambda>(p, c). (path_join p, c)) ?fs"
    unfolding addDirToZip_files using ub by auto
  have names: "map fst (addDirToZip [] [] t) = map path_join (map fst ?fs)"
    unfolding z by (simp add: case_prod_beta comp_def)
  have inj: "inj_on path_join (set (map fst ?fs))"
  proof (rule inj_onI)
    fix p q assume p: "p \<in> set (map fst ?fs)" and q: "q \<in> set (map fst ?fs)"
      and e: "path_join p = path_join q"
    from p obtain c where pc: "(p, c) \<in> set ?fs" by auto
    from q obtain d where qd: "(q, d) \<in> set ?fs" by auto
    show "p = q"
      using path_join_inj[OF _ _ ne[OF pc] ne[OF qd] e] ok[OF pc] ok[OF qd]
      by (auto simp: name_ok_def)
  qed
  have d: "distinct (map fst (addDirToZip [] [] t))"
    unfolding names
  proof (subst distinct_map, intro conjI)
    show "distinct (map fst ?fs)" by (rule tree_files_distinct[OF assms])
    show "inj_on path_join (set (map fst ?fs))" by (rule inj)
  qed
  have m: "map_of (addDirToZip [] [] t) (path_join p) = Some c" if "(p, c) \<in> set ?fs" for p c
  proof (rule map_of_is_SomeI[OF d])
    from that show "(path_join p, c) \<in> set (addDirToZip [] [] t)"
      unfolding z by force
  qed
  from names d m show ?thesis by (auto simp: z)
qed

theorem addDirToZip_roundtrip_witness:
  "wf_tree [(''imsmanifest.xml'', File ''<manifest/>''), (''js'', Dir [(''a.js'', File ''x'')])]
   \<and> map fst (addDirToZip [] [] [(''imsmanifest.xml'', File ''<manifest/>''),
         (''js'', Dir [(''a.js'', File ''x'')])]) = [''imsmanifest.xml'', ''js/a.js'']"
  using addDirToZip_roundtrip[of "[(''imsmanifest.xml'', File ''<manifest/>''), (''js'', Dir [(''a.js'', File ''x'')])]"]
  by (simp add: name_ok_def addFile_def unbackslash_def)

section \<open>Inlining a snippet is idempotent\<close>

lemma getSubstitution_plain:
  "plain_dollars r \<Longrightarrow> getSubstitution m b a r = r"
  by (induction m b a r rule: getSubstitution.induct) auto

lemma plain_dollars_append:
  "plain_dollars x \<Longrightarrow> plain_dollars y \<Longrightarrow>
   (y \<noteq> [] \<longrightarrow> hd y \<notin> {CHR ''$'', CHR ''&'', CHR 0x60, CHR 0x27}) \<Longrightarrow> plain_dollars (x @ y)"
proof (induction x rule: plain_dollars.induct)
  case 1
  then show ?case by simp
next
  case (2 c)
  then show ?case by (cases y) auto
next
  case (3 c d r)
  then show ?case by simp
qed

lemma plain_dollars_no_dollar:
  "CHR ''$'' \<notin> set x \<Longrightarrow> plain_dollars y \<Longrightarrow> plain_dollars (x @ y)"
proof (induction x rule: plain_dollars.induct)
  case 1
  then show ?case by simp
next
  case (2 c)
  then show ?case by (cases y) auto
next
  case (3 c d r)
  then show ?case by auto
qed

lemma split_first_Some:
  "split_first pat s = Some (b, a) \<Longrightarrow> s = b @ pat @ a"
proof (induction s arbitrary: b a)
  case Nil
  then show ?case by (simp split: if_splits)
next
  case (Cons c cs)
  show ?case
  proof (cases "prefix pat (c # cs)")
    case True
    then obtain r where r: "c # cs = pat @ r" by (auto simp: prefix_def)
    from Cons.prems True have b: "b = []" and a: "a = drop (length pat) (c # cs)"
      by simp_all
    from a have "a = r" unfolding r by simp
    with b r show ?thesis by simp
  next
    case False
    with Cons.prems obtain b' where "split_first pat cs = Some (b', a)" "b = c # b'"
      by (auto split: option.splits)
    with Cons.IH show ?thesis by simp
  qed
qed

lemma split_first_includes:
  "js_includes s pat \<Longrightarrow> \<exists>b a. split_first pat s = Some (b, a)"
  by (induction s) (auto split: option.splits)

lemma includes_count: "m \<noteq> [] \<Longrightarrow> js_includes s m \<longleftrightarrow> 0 < count_occ m s"
  by (induction s) auto

lemma count_occ_append_hd:
  "y \<noteq> [] \<Longrightarrow> hd y \<notin> set m \<Longrightarrow> count_occ m (x @ y) = count_occ m x + count_occ m y"
proof (induction x)
  case Nil
  then show ?case by simp
next
  case (Cons c x)
  have "prefix m ((c # x) @ y) \<longleftrightarrow> prefix m (c # x)"
  proof
    assume "prefix m ((c # x) @ y)"
    then consider "prefix m (c # x)" | us where "m = (c # x) @ us" "prefix us y"
      unfolding prefix_append by blast
    then show "prefix m (c # x)"
    proof cases
      case 1
      then show ?thesis .
    next
      case 2
      show ?thesis
      proof (cases us)
        case Nil
        with 2 show ?thesis by simp
      next
        case (Cons u us')
        with 2 Cons.prems have "hd y = u" by (cases y) auto
        with 2 Cons Cons.prems show ?thesis by auto
      qed
    qed
  next
    assume "prefix m (c # x)"
    then show "prefix m ((c # x) @ y)" by (rule prefix_prefix)
  qed
  with Cons show ?case by simp
qed

lemma count_occ_append_last:
  "x \<noteq> [] \<Longrightarrow> last x \<notin> set m \<Longrightarrow> count_occ m (x @ y) = count_occ m x + count_occ m y"
proof (induction x)
  case Nil
  then show ?case by simp
next
  case (Cons c x)
  have pre: "prefix m ((c # x) @ y) \<longleftrightarrow> prefix m (c # x)"
  proof
    assume "prefix m ((c # x) @ y)"
    then consider "prefix m (c # x)" | us where "m = (c # x) @ us" "prefix us y"
      unfolding prefix_append by blast
    then show "prefix m (c # x)"
    proof cases
      case 1
      then show ?thesis .
    next
      case 2
      then have "last (c # x) \<in> set m" by simp
      with Cons.prems show ?thesis by simp
    qed
  next
    assume "prefix m (c # x)"
    then show "prefix m ((c # x) @ y)" by (rule prefix_prefix)
  qed
  show ?case
  proof (cases "x = []")
    case True
    with pre show ?thesis by simp
  next
    case False
    with Cons have "count_occ m (x @ y) = count_occ m x + count_occ m y" by simp
    with pre show ?thesis by simp
  qed
qed

lemma count_occ_append_zero:
  "count_occ m (x @ y) = 0 \<Longrightarrow> count_occ m x = 0 \<and> count_occ m y = 0"
proof (induction x)
  case Nil
  then show ?case by simp
next
  case (Cons c x)
  then have "\<not> prefix m ((c # x) @ y)" and "count_occ m (x @ y) = 0"
    by (auto split: if_splits)
  moreover from this(1) have "\<not> prefix m (c # x)" using prefix_prefix by blast
  ultimately show ?case using Cons.IH by simp
qed

lemma count_occ_single: "m \<noteq> [] \<Longrightarrow> c \<notin> set m \<Longrightarrow> count_occ m [c] = 0"
  by (cases m) auto

lemma inline_block_count:
  assumes m: "m \<noteq> []" "newline \<notin> set m"
    and blk: "block \<noteq> []" "hd block \<notin> set m" "last block \<notin> set m" "count_occ m block = 1"
    and pd: "plain_dollars (''<head>'' @ [newline] @ block)" "plain_dollars (block @ ''</head>'')"
    and no: "\<not> js_includes html m"
  shows "count_occ m (inline_block m block html) = 1"
proof -
  from no m have z: "count_occ m html = 0" by (simp add: includes_count)
  have ba: "count_occ m (block @ a) = 1 + count_occ m a" for a
    using count_occ_append_last[OF blk(1) blk(3)] blk(4) by simp
  show ?thesis
  proof (cases "js_includes html ''<head>''")
    case True
    then obtain b a where sp: "split_first ''<head>'' html = Some (b, a)"
      using split_first_includes by blast
    from split_first_Some[OF sp] have h: "html = (b @ ''<head>'') @ a" by simp
    from z h count_occ_append_zero[of m "b @ ''<head>''" a]
    have zb: "count_occ m (b @ ''<head>'') = 0" and za: "count_occ m a = 0" by auto
    have res: "inline_block m block html = ((b @ ''<head>'') @ [newline]) @ (block @ a)"
      using no True sp pd(1) by (simp add: inline_block_def js_replace_def getSubstitution_plain)
    have "count_occ m (((b @ ''<head>'') @ [newline]) @ (block @ a))
          = count_occ m ((b @ ''<head>'') @ [newline]) + count_occ m (block @ a)"
      by (rule count_occ_append_last) (use m in auto)
    also have "count_occ m ((b @ ''<head>'') @ [newline])
          = count_occ m (b @ ''<head>'') + count_occ m [newline]"
      by (rule count_occ_append_hd) (use m in auto)
    finally show ?thesis
      unfolding res using zb za ba count_occ_single[OF m] by simp
  next
    case nohead: False
    show ?thesis
    proof (cases "js_includes html ''</head>''")
      case True
      then obtain b a where sp: "split_first ''</head>'' html = Some (b, a)"
        using split_first_includes by blast
      from split_first_Some[OF sp] have h: "html = b @ (''</head>'' @ a)" by simp
      from z h count_occ_append_zero[of m b "''</head>'' @ a"]
      have zb: "count_occ m b = 0" and za: "count_occ m (''</head>'' @ a) = 0" by auto
      have res: "inline_block m block html = b @ (block @ (''</head>'' @ a))"
        using no nohead True sp pd(2)
        by (simp add: inline_block_def js_replace_def getSubstitution_plain)
      have "count_occ m (b @ (block @ (''</head>'' @ a)))
            = count_occ m b + count_occ m (block @ (''</head>'' @ a))"
        by (rule count_occ_append_hd) (use blk in auto)
      then show ?thesis unfolding res using zb za ba by simp
    next
      case False
      with no nohead have "inline_block m block html = block @ html"
        by (simp add: inline_block_def)
      with ba z show ?thesis by simp
    qed
  qed
qed

lemma inline_block_skip: "js_includes html m \<Longrightarrow> inline_block m block html = html"
  by (simp add: inline_block_def)

lemma script_block_facts:
  assumes m: "m \<noteq> []" "newline \<notin> set m" "CHR ''<'' \<notin> set m"
    and hdr: "CHR ''$'' \<notin> set hdr" "count_occ m (''<script>'' @ [newline] @ hdr @ [newline]) = 1"
      "count_occ m ''</script>'' = 0"
    and src: "\<not> js_includes src m" "plain_dollars src"
  defines "block \<equiv> ''<script>'' @ [newline] @ hdr @ [newline] @ src @ [newline] @ ''</script>'' @ [newline]"
  shows "block \<noteq> []" "hd block \<notin> set m" "last block \<notin> set m" "count_occ m block = 1"
    "plain_dollars (''<head>'' @ [newline] @ block)" "plain_dollars (block @ ''</head>'')"
proof -
  let ?P = "''<script>'' @ [newline] @ hdr @ [newline]"
  let ?S = "[newline] @ ''</script>'' @ [newline]"
  have b: "block = ?P @ (src @ ?S)" by (simp add: block_def)
  show "block \<noteq> []" by (simp add: block_def)
  show "hd block \<notin> set m" using m by (simp add: block_def)
  show "last block \<notin> set m" using m by (simp add: block_def)
  from src m have zs: "count_occ m src = 0" by (simp add: includes_count)
  have zS: "count_occ m ?S = 0"
  proof -
    have "count_occ m ([newline] @ (''</script>'' @ [newline]))
          = count_occ m [newline] + count_occ m (''</script>'' @ [newline])"
      by (rule count_occ_append_last) (use m in auto)
    moreover have "count_occ m (''</script>'' @ [newline])
          = count_occ m ''</script>'' + count_occ m [newline]"
      by (rule count_occ_append_hd) (use m in auto)
    ultimately show ?thesis using count_occ_single[OF m(1,2)] hdr(3) by simp
  qed
  have "count_occ m (?P @ (src @ ?S)) = count_occ m ?P + count_occ m (src @ ?S)"
    by (rule count_occ_append_last) (use m in auto)
  moreover have "count_occ m (src @ ?S) = count_occ m src + count_occ m ?S"
    by (rule count_occ_append_hd) (use m in auto)
  ultimately show "count_occ m block = 1"
    unfolding b using hdr(2) zs zS by simp
  have nl: "newline \<notin> {CHR ''$'', CHR ''&'', CHR 0x60, CHR 0x27}" by (simp add: newline_def)
  have pS: "plain_dollars (?S @ t)" if "CHR ''$'' \<notin> set t" for t
    using plain_dollars_no_dollar[of "?S @ t" "[]"] that by (simp add: newline_def)
  have ps: "plain_dollars (src @ ?S @ t)" if "CHR ''$'' \<notin> set t" for t
    by (rule plain_dollars_append[OF src(2) pS[OF that]]) (use nl in simp)
  have "plain_dollars ((''<head>'' @ [newline] @ ?P) @ (src @ ?S @ []))"
    by (rule plain_dollars_no_dollar) (use hdr ps[of "[]"] in \<open>auto simp: newline_def\<close>)
  then show "plain_dollars (''<head>'' @ [newline] @ block)" by (simp add: block_def)
  have "plain_dollars (?P @ (src @ ?S @ ''</head>''))"
    by (rule plain_dollars_no_dollar) (use hdr ps[of "''</head>''"] in \<open>auto simp: newline_def\<close>)
  then show "plain_dollars (block @ ''</head>'')" by (simp add: block_def)
qed

lemma shim_marker_facts:
  "shim_marker \<noteq> []" "newline \<notin> set shim_marker" "CHR ''<'' \<notin> set shim_marker"
  "count_occ shim_marker ''</script>'' = 0"
  by (simp_all add: shim_marker_def newline_def)

lemma shim_header_count:
  "count_occ shim_marker (''<script>'' @ [newline] @ ''/* === SCORM API Shim (inlined) === */'' @ [newline]) = 1"
  by (simp add: shim_marker_def newline_def)

lemma tracker_marker_facts:
  "tracker_marker \<noteq> []" "newline \<notin> set tracker_marker" "CHR ''<'' \<notin> set tracker_marker"
  "count_occ tracker_marker ''</script>'' = 0"
  by (simp_all add: tracker_marker_def newline_def)

lemma tracker_header_count:
  "count_occ tracker_marker (''<script>'' @ [newline] @ ''/* === SCORM Event Tracker (inlined) === */'' @ [newline]) = 1"
  by (simp add: tracker_marker_def newline_def)

lemma shim_inline_count:
  assumes "\<not> js_includes src shim_marker" "plain_dollars src"
  shows "count_occ shim_marker (inline_block shim_marker (shimBlock src) html)
         = (if js_includes html shim_marker then count_occ shim_marker html else 1)"
proof (cases "js_includes html shim_marker")
  case True
  then show ?thesis by (simp add: inline_block_skip)
next
  case False
  note f = script_block_facts[OF shim_marker_facts(1-3) _ shim_header_count shim_marker_facts(4) assms,
      folded shimBlock_def]
  from False inline_block_count[OF shim_marker_facts(1,2) f(1-6) False]
  show ?thesis by simp
qed

lemma tracker_inline_count:
  assumes "\<not> js_includes src tracker_marker" "plain_dollars src"
  shows "count_occ tracker_marker (inline_block tracker_marker (trackerBlock src) html)
         = (if js_includes html tracker_marker then count_occ tracker_marker html else 1)"
proof (cases "js_includes html tracker_marker")
  case True
  then show ?thesis by (simp add: inline_block_skip)
next
  case False
  note f = script_block_facts[OF tracker_marker_facts(1-3) _ tracker_header_count tracker_marker_facts(4) assms,
      folded trackerBlock_def]
  from False inline_block_count[OF tracker_marker_facts(1,2) f(1-6) False]
  show ?thesis by simp
qed

lemma html_docs_walk: "html_docs (walk f t) = map f (html_docs t)"
  by (induction f t rule: walk.induct) simp_all

lemma other_files_walk: "other_files (walk f t) = other_files t"
  by (induction f t rule: walk.induct) simp_all

lemma walk_idem: "(\<And>d. f (f d) = f d) \<Longrightarrow> walk f (walk f t) = walk f t"
  by (induction f t rule: walk.induct) simp_all

lemma walk_funpow: 
  assumes "\<And>d. f (f d) = f d" "0 < n"
  shows "(walk f ^^ n) t = walk f t"
  using assms(2)
proof (induction n)
  case 0
  then show ?case by simp
next
  case (Suc n)
  show ?case
  proof (cases "n = 0")
    case True
    then show ?thesis by simp
  next
    case False
    with Suc have "(walk f ^^ n) t = walk f t" by simp
    then show ?thesis using walk_idem[of f t, OF assms(1)] by simp
  qed
qed

lemma inline_idem:
  assumes m: "m \<noteq> []"
    and c: "\<And>html. \<not> js_includes html m \<Longrightarrow> count_occ m (inline_block m block html) = 1"
  shows "inline_block m block (inline_block m block html) = inline_block m block html"
proof (cases "js_includes html m")
  case True
  then show ?thesis by (simp add: inline_block_skip)
next
  case False
  from c[OF False] m have "js_includes (inline_block m block html) m"
    by (simp add: includes_count)
  then show ?thesis by (rule inline_block_skip)
qed

lemma inject_facts:
  assumes "\<not> js_includes shimSrc shim_marker" "plain_dollars shimSrc"
    and "\<not> js_includes trackerSrc tracker_marker" "plain_dollars trackerSrc"
    and "0 < n"
  shows "map (count_occ shim_marker) (html_docs ((injectShimIntoDir shimSrc ^^ n) t))
         = map (\<lambda>d. if js_includes d shim_marker then count_occ shim_marker d else 1) (html_docs t)"
    and "map (count_occ tracker_marker) (html_docs ((injectTrackerIntoDir trackerSrc ^^ n) t))
         = map (\<lambda>d. if js_includes d tracker_marker then count_occ tracker_marker d else 1) (html_docs t)"
    and "(injectShimIntoDir shimSrc ^^ n) t = injectShimIntoDir shimSrc t"
    and "(injectTrackerIntoDir trackerSrc ^^ n) t = injectTrackerIntoDir trackerSrc t"
    and "other_files (injectShimIntoDir shimSrc t) = other_files t"
    and "other_files (injectTrackerIntoDir trackerSrc t) = other_files t"
proof -
  let ?f = "inline_block shim_marker (shimBlock shimSrc)"
  let ?g = "inline_block tracker_marker (trackerBlock trackerSrc)"
  have fi: "?f (?f d) = ?f d" for d
    by (rule inline_idem[OF shim_marker_facts(1)]) (simp add: shim_inline_count[OF assms(1,2)])
  have gi: "?g (?g d) = ?g d" for d
    by (rule inline_idem[OF tracker_marker_facts(1)]) (simp add: tracker_inline_count[OF assms(3,4)])
  have sf: "injectShimIntoDir shimSrc = walk ?f" by (rule ext) (simp add: injectShimIntoDir_def)
  have tf: "injectTrackerIntoDir trackerSrc = walk ?g" by (rule ext) (simp add: injectTrackerIntoDir_def)
  show s: "(injectShimIntoDir shimSrc ^^ n) t = injectShimIntoDir shimSrc t"
    unfolding sf using walk_funpow[of ?f n t, OF fi assms(5)] .
  show r: "(injectTrackerIntoDir trackerSrc ^^ n) t = injectTrackerIntoDir trackerSrc t"
    unfolding tf using walk_funpow[of ?g n t, OF gi assms(5)] .
  show "map (count_occ shim_marker) (html_docs ((injectShimIntoDir shimSrc ^^ n) t))
         = map (\<lambda>d. if js_includes d shim_marker then count_occ shim_marker d else 1) (html_docs t)"
    unfolding s by (simp add: sf html_docs_walk shim_inline_count[OF assms(1,2)] comp_def)
  show "map (count_occ tracker_marker) (html_docs ((injectTrackerIntoDir trackerSrc ^^ n) t))
         = map (\<lambda>d. if js_includes d tracker_marker then count_occ tracker_marker d else 1) (html_docs t)"
    unfolding r by (simp add: tf html_docs_walk tracker_inline_count[OF assms(3,4)] comp_def)
  show "other_files (injectShimIntoDir shimSrc t) = other_files t"
    by (simp add: sf other_files_walk)
  show "other_files (injectTrackerIntoDir trackerSrc t) = other_files t"
    by (simp add: tf other_files_walk)
qed

text \<open>
  C4, as the code has it. For each of the two snippets, whose source holds neither its own
  marker nor a \<open>$\<close> replacement pattern: running the injection pass \<open>n \<ge> 1\<close> times
  gives the tree that one pass gives; in it an HTML document that came without the marker
  holds the marker exactly once, and a document that came with the marker was skipped and
  keeps the occurrences it had. Files that are not HTML are untouched.
\<close>

theorem inject_marker_once:
  assumes "\<not> js_includes shimSrc shim_marker" "plain_dollars shimSrc"
    and "\<not> js_includes trackerSrc tracker_marker" "plain_dollars trackerSrc"
    and "0 < n"
  shows "map (count_occ shim_marker) (html_docs ((injectShimIntoDir shimSrc ^^ n) t))
           = map (\<lambda>d. if js_includes d shim_marker then count_occ shim_marker d else 1) (html_docs t)
       \<and> map (count_occ tracker_marker) (html_docs ((injectTrackerIntoDir trackerSrc ^^ n) t))
           = map (\<lambda>d. if js_includes d tracker_marker then count_occ tracker_marker d else 1) (html_docs t)
       \<and> (injectShimIntoDir shimSrc ^^ n) t = injectShimIntoDir shimSrc t
       \<and> (injectTrackerIntoDir trackerSrc ^^ n) t = injectTrackerIntoDir trackerSrc t
       \<and> other_files (injectShimIntoDir shimSrc t) = other_files t
       \<and> other_files (injectTrackerIntoDir trackerSrc t) = other_files t"
  using inject_facts[OF assms] by blast

theorem inject_marker_once_witness:
  "map (count_occ shim_marker) (html_docs ((injectShimIntoDir ''var a = `${b}`;'' ^^ 2)
      [(''index.html'', File ''<html><head></head></html>''),
       (''sub'', Dir [(''page.HTM'', File ''<p>hi</p>''), (''x.js'', File ''y'')])])) = [1, 1]
   \<and> map (count_occ tracker_marker) (html_docs ((injectTrackerIntoDir ''log(`${e}`);'' ^^ 2)
      [(''index.html'', File ''<html><head></head></html>''),
       (''sub'', Dir [(''page.HTM'', File ''<p>hi</p>''), (''x.js'', File ''y'')])])) = [1, 1]"
proof -
  let ?t = "[(''index.html'', File ''<html><head></head></html>''),
       (''sub'', Dir [(''page.HTM'', File ''<p>hi</p>''), (''x.js'', File ''y'')])]"
  have h: "\<not> js_includes ''var a = `${b}`;'' shim_marker" "plain_dollars ''var a = `${b}`;''"
    "\<not> js_includes ''log(`${e}`);'' tracker_marker" "plain_dollars ''log(`${e}`);''"
    "0 < (2::nat)"
    by (simp_all add: shim_marker_def tracker_marker_def)
  have d: "html_docs ?t = [''<html><head></head></html>'', ''<p>hi</p>'']"
    by (simp add: html_name_def toLowerCase_def endsWith_def lower_char_def suffix_def)
  have r1: "map (\<lambda>d. if js_includes d shim_marker then count_occ shim_marker d else 1) (html_docs ?t)
            = [1, 1]"
    unfolding d by (simp add: shim_marker_def)
  have r2: "map (\<lambda>d. if js_includes d tracker_marker then count_occ tracker_marker d else 1) (html_docs ?t)
            = [1, 1]"
    unfolding d by (simp add: tracker_marker_def)
  from inject_marker_once[OF h, of ?t, unfolded r1 r2] show ?thesis by blast
qed

text \<open>
  The claim as stated fails on a document that comes with the marker twice: it is skipped,
  and two passes leave two occurrences.
\<close>

theorem inject_marker_twice_counterexample:
  "map (count_occ shim_marker) (html_docs ((injectShimIntoDir ''var a;'' ^^ 2)
      [(''index.html'',
        File ''<p>SCORM API Shim (inlined)</p><p>SCORM API Shim (inlined)</p>'')])) = [2]"
  by (simp add: shim_marker_def html_name_def toLowerCase_def endsWith_def lower_char_def
      suffix_def injectShimIntoDir_def inline_block_def numeral_2_eq_2)

section \<open>The resume classification\<close>


lemma push_resume [simp]: "resumeCapable (push d a) = resumeCapable a"
  by (simp add: push_def)







lemma push_api [simp]:
  "filter is_api_line (details (push d a)) = filter is_api_line (details a) @ filter is_api_line [d]"
  by (simp add: push_def)








lemma unique_set [simp]: "set (unique xs) = set xs"
  by (simp add: unique_def)

lemma unique_distinct [simp]: "distinct (unique xs)"
  by (simp add: unique_def)






section \<open>Finding, reading and writing files in a tree\<close>










section \<open>Assignments to a parsed manifest\<close>












section \<open>Relative paths and the launch file search\<close>













lemma html_name_append: "html_name n \<Longrightarrow> html_name (x @ n)"
  by (auto simp: html_name_def toLowerCase_def endsWith_def intro: suffix_appendI)






lemma attrs_XObj: "attrs v = Some a \<Longrightarrow> \<exists>t ks. v = XObj (Some a) t ks"
  by (cases v) (auto simp: attrs_def)








section \<open>Writing the manifest back\<close>





section \<open>A primary resource without attributes\<close>


section \<open>Repair of a broken launch reference\<close>


section \<open>The batch loops\<close>

lemma analyze_loop_map:
  "analyze_loop parse shimSrc trackerSrc dsk folderPath zs (rs, s, r, f)
   = (rs @ map (analyze_entry parse shimSrc trackerSrc dsk folderPath) zs,
      s + length (filter ae_success (map (analyze_entry parse shimSrc trackerSrc dsk folderPath) zs)),
      r + length (filter ae_resume (map (analyze_entry parse shimSrc trackerSrc dsk folderPath) zs)),
      f + length (filter (\<lambda>e. \<not> ae_success e)
                    (map (analyze_entry parse shimSrc trackerSrc dsk folderPath) zs)))"
proof (induction zs arbitrary: rs s r f)
  case Nil
  then show ?case by simp
next
  case (Cons z zs)
  show ?case
  proof (cases "d_size dsk (path_join [folderPath, z])")
    case None
    then show ?thesis
      by (simp add: Cons analyze_entry_def ae_success_def ae_resume_def Let_def del: path_join.simps)
  next
    case (Some sz)
    then show ?thesis
      by (cases "analyzeSCORM parse (d_entries dsk (path_join [folderPath, z]))")
        (simp_all add: Cons analyze_entry_def ae_success_def ae_resume_def Let_def
          del: path_join.simps)
  qed
qed

lemma repair_loop_map:
  "repair_loop parse build outside tmpDirs sessionIds shimSrc dsk folderPath i zs rs
   = rs @ map (\<lambda>(j, z). repair_item parse build outside tmpDirs sessionIds shimSrc dsk folderPath j z)
            (zip [i..<i + length zs] zs)"
proof (induction zs arbitrary: i rs)
  case Nil
  then show ?case by simp
next
  case (Cons z zs)
  have "[i..<i + length (z # zs)] = i # [Suc i..<Suc i + length zs]"
    by (simp add: upt_rec)
  then show ?case by (simp add: Cons)
qed

lemma analyze_folder_Json:
  assumes "analyze_folder parse shimSrc trackerSrc dsk folderPath = Json resp"
  shows "\<exists>files. d_list dsk folderPath = Listing files
        \<and> results resp = map (analyze_entry parse shimSrc trackerSrc dsk folderPath) (filter is_batch_zip files)
        \<and> batch_summary resp = Some
             \<lparr>totalFiles = length (filter is_batch_zip files),
              successfullyAnalyzed = length (filter ae_success (results resp)),
              resumeCapableFiles = length (filter ae_resume (results resp)),
              failed = length (filter (\<lambda>e. \<not> ae_success e) (results resp)),
              summaryFolder = folderPath\<rparr>"
proof -
  from assms obtain files where l: "d_list dsk folderPath = Listing files"
    by (auto simp: analyze_folder_def split: if_splits folder.splits)
  with assms show ?thesis
    by (auto simp: analyze_folder_def analyze_loop_map Let_def split: if_splits)
qed

lemma repair_folder_Json:
  assumes "repair_folder parse build outside tmpDirs sessionIds shimSrc dsk folderPath = Json resp"
  shows "\<exists>files. d_list dsk folderPath = Listing files
        \<and> results resp
            = map (\<lambda>(j, z). repair_item parse build outside tmpDirs sessionIds shimSrc dsk folderPath j z)
                (zip [0..<length (filter is_batch_zip files)] (filter is_batch_zip files))
        \<and> batch_summary resp = None"
proof -
  from assms obtain files where l: "d_list dsk folderPath = Listing files"
    by (auto simp: repair_folder_def split: if_splits folder.splits)
  with assms show ?thesis
    by (auto simp: repair_folder_def repair_loop_map Let_def split: if_splits)
qed

text \<open>
  C7, as the code has it. The response of the analyze path carries a summary whose
  \<open>totalFiles\<close> is the length of the results and whose \<open>failed\<close> is the number of
  results with \<open>success\<close> false (the other two counts are re-derivable the same way).
  The response of the repair path carries the results and no summary; the summary of a
  repair run is the one the page computes from those results, with the same two
  equations.
\<close>

theorem batch_summary_rederivable:
  "(analyze_folder parse shimSrc trackerSrc dsk folderPath = Json resp \<longrightarrow>
      (\<exists>sm. batch_summary resp = Some sm
          \<and> totalFiles sm = length (results resp)
          \<and> failed sm = length (filter (\<lambda>e. \<not> ae_success e) (results resp))
          \<and> successfullyAnalyzed sm = length (filter ae_success (results resp))
          \<and> resumeCapableFiles sm = length (filter ae_resume (results resp))))
   \<and> (repair_folder parse build outside tmpDirs sessionIds shimSrc dsk folderPath = Json rresp \<longrightarrow>
        batch_summary rresp = None
        \<and> snd (displayBatchRepairResults rresp) = results rresp
        \<and> totalFiles (fst (displayBatchRepairResults rresp)) = length (results rresp)
        \<and> failed (fst (displayBatchRepairResults rresp))
            = length (filter (\<lambda>r. \<not> re_success r) (results rresp)))"
proof (intro conjI impI)
  assume a: "analyze_folder parse shimSrc trackerSrc dsk folderPath = Json resp"
  from analyze_folder_Json[OF a] obtain files where
    r: "results resp = map (analyze_entry parse shimSrc trackerSrc dsk folderPath) (filter is_batch_zip files)"
    and s: "batch_summary resp = Some
             \<lparr>totalFiles = length (filter is_batch_zip files),
              successfullyAnalyzed = length (filter ae_success (results resp)),
              resumeCapableFiles = length (filter ae_resume (results resp)),
              failed = length (filter (\<lambda>e. \<not> ae_success e) (results resp)),
              summaryFolder = folderPath\<rparr>" by blast
  from r have "length (results resp) = length (filter is_batch_zip files)" by simp
  with s show "\<exists>sm. batch_summary resp = Some sm
          \<and> totalFiles sm = length (results resp)
          \<and> failed sm = length (filter (\<lambda>e. \<not> ae_success e) (results resp))
          \<and> successfullyAnalyzed sm = length (filter ae_success (results resp))
          \<and> resumeCapableFiles sm = length (filter ae_resume (results resp))"
    by simp
next
  assume a: "repair_folder parse build outside tmpDirs sessionIds shimSrc dsk folderPath = Json rresp"
  from repair_folder_Json[OF a] show "batch_summary rresp = None" by blast
next
  show "snd (displayBatchRepairResults rresp) = results rresp"
    by (simp add: displayBatchRepairResults_def Let_def)
next
  show "totalFiles (fst (displayBatchRepairResults rresp)) = length (results rresp)"
    by (simp add: displayBatchRepairResults_def Let_def)
next
  show "failed (fst (displayBatchRepairResults rresp))
            = length (filter (\<lambda>r. \<not> re_success r) (results rresp))"
    by (simp add: displayBatchRepairResults_def Let_def)
qed





section \<open>Examples and failing inputs\<close>








text \<open>
  C1. \<open>repairSCORM\<close> has a \<open>finally\<close> block and no \<open>catch\<close>: an archive that cannot
  be opened, a manifest whose root is not \<open>manifest\<close> and an empty \<open>manifest\<close> element
  each make it throw instead of returning a result with \<open>success\<close> false.
\<close>

theorem repairSCORM_throws:
  "repairSCORM sample_parse sample_build no_outside sample_tmp None = Inl ZipError
   \<and> repairSCORM sample_parse sample_build no_outside sample_tmp
         (Some [(''imsmanifest.xml'', File ''<course/>''), (''index.html'', File ''<p>'')])
       = Inl TypeError
   \<and> repairSCORM sample_parse sample_build no_outside sample_tmp
         (Some [(''imsmanifest.xml'', File ''<manifest/>''), (''index.html'', File ''<p>'')])
       = Inl TypeError"
  by code_simp

text \<open>
  \<open>analyzeSCORM\<close> returns a value on every input. It reports a missing manifest when no
  entry name ends in \<open>imsmanifest.xml\<close>, and a failure when the archive cannot be opened
  or the manifest cannot be parsed.
\<close>

lemma analyze_missing_manifest:
  "find is_manifest_entry zipEntries = None \<Longrightarrow>
   analyzeSCORM parse (Some zipEntries) = Failed NoManifestFound"
  by (simp add: analyzeSCORM_def)

lemma analyze_malformed_manifest:
  "find is_manifest_entry zipEntries = Some (name, Some content) \<Longrightarrow> parse content = None \<Longrightarrow>
   analyzeSCORM parse (Some zipEntries) = Failed (Message ParseError)"
  by (simp add: analyzeSCORM_def analyze_manifest_def)

lemma analyze_unreadable_archive:
  "analyzeSCORM parse None = Failed (Message ZipError)"
  by (simp add: analyzeSCORM_def)

text \<open>
  C5. The search tests whether the entry name ends in \<open>imsmanifest.xml\<close>, so an archive
  with no file of that name but with \<open>old_imsmanifest.xml\<close> is analysed with that file
  as its manifest and reported as a success.
\<close>

theorem analyze_accepts_suffix_name:
  "\<not> list_ex named_manifest [(''backup/old_imsmanifest.xml'', Some plain_xml)]
   \<and> analyzeSCORM sample_parse (Some [(''backup/old_imsmanifest.xml'', Some plain_xml)])
       = Analysis \<lparr>hasManifest = True, resumeCapable = False,
                   details = [NoIndicators, MayStillSupportResume],
                   metadata = \<lparr>meta_version = None, meta_title = None, meta_launchFile = None\<rparr>\<rparr>"
  by code_simp

text \<open>
  C6. The minimal manifest is built by pasting the path of the launch file into an
  attribute value as it is. For an archive without a manifest whose only page is
  \<open>Q&A.html\<close> the text holds a bare \<open>&\<close>; with a parser that rejects it the rebuilt
  manifest is rejected as well, and the repair throws.
\<close>

theorem repair_unparsable_minimal_manifest:
  assumes "parse (buildMinimalManifest ''/tmp/scorm_repair_0a1b2c3d4e5f/Q&A.html'') = None"
  shows "repairSCORM parse build outside sample_tmp (Some [(''Q&A.html'', File html)]) = Inl ParseError"
proof -
  let ?T = "[(''Q&A.html'', File html)]"
  have f: "findFile sample_tmp ?T ''imsmanifest.xml'' = None"
    by (simp add: toLowerCase_def lower_char_def)
  have c: "first_candidate sample_tmp t LAUNCH_CANDIDATES = None"
    if "t = ?T \<or> t = [(''Q&A.html'', File html), (''imsmanifest.xml'', File x)]" for t x
    using that by (auto simp: LAUNCH_CANDIDATES_def toLowerCase_def lower_char_def)
  have hn: "html_name ''Q&A.html''" by code_simp
  have l: "findLaunchFile sample_tmp t = Some (sample_tmp @ [''Q&A.html''])"
    if "t = ?T \<or> t = [(''Q&A.html'', File html), (''imsmanifest.xml'', File x)]" for t x
    using that c[OF that] hn by (auto simp: findLaunchFile_def)
  have a: "abs_str (sample_tmp @ [''Q&A.html'']) = ''/tmp/scorm_repair_0a1b2c3d4e5f/Q&A.html''"
    by code_simp
  have m: "minimal_manifest_for sample_tmp t
           = buildMinimalManifest ''/tmp/scorm_repair_0a1b2c3d4e5f/Q&A.html''"
    if "t = ?T \<or> t = [(''Q&A.html'', File html), (''imsmanifest.xml'', File x)]" for t x
    by (simp add: minimal_manifest_for_def l[OF that] a)
  let ?xml = "buildMinimalManifest ''/tmp/scorm_repair_0a1b2c3d4e5f/Q&A.html''"
  have w: "writeFileSync sample_tmp ?T (sample_tmp @ [''imsmanifest.xml'']) ?xml
           = Inr ([(''Q&A.html'', File html), (''imsmanifest.xml'', File ?xml)])"
    by (simp add: writeFileSync_def)
  have s1: "find_or_create_manifest outside sample_tmp ?T
            = Inr (sample_tmp @ [''imsmanifest.xml''], ?xml, [(''Q&A.html'', File html), (''imsmanifest.xml'', File ?xml)],
                   [CreatedManifest])"
    by (simp add: find_or_create_manifest_def f m w bind_def Let_def del: findFile.simps)
  have s2: "parse_or_rebuild parse sample_tmp ([(''Q&A.html'', File html), (''imsmanifest.xml'', File ?xml)]) ?xml
            = Inl ParseError"
    by (simp add: parse_or_rebuild_def assms m)
  show ?thesis
    by (simp add: repairSCORM_def s1 s2 bind_def)
qed

theorem repair_unparsable_minimal_manifest_witness:
  "repairSCORM sample_parse sample_build no_outside sample_tmp
     (Some [(''Q&A.html'', File ''<html><body>Questions</body></html>'')]) = Inl ParseError"
proof -
  have h: "sample_parse (buildMinimalManifest ''/tmp/scorm_repair_0a1b2c3d4e5f/Q&A.html'') = None"
    by code_simp
  from repair_unparsable_minimal_manifest[where parse=sample_parse, OF h] show ?thesis .
qed

theorem batch_summary_rederivable_witness:
  "\<exists>resp sm. analyze_folder sample_parse ''var a;'' ''var b;'' sample_disk ''courses'' = Json resp
     \<and> batch_summary resp = Some sm \<and> totalFiles sm = 2 \<and> failed sm = 1
     \<and> length (results resp) = 2"
proof -
  let ?resp = "\<lparr>batch_success = True, batch_folder = None,
     batch_summary = Some \<lparr>totalFiles = 2, successfullyAnalyzed = 1, resumeCapableFiles = 0,
           failed = 1, summaryFolder = ''courses''\<rparr>,
     results =
       [\<lparr>ae_filename = ''a.zip'', ae_path = ''courses/a.zip'', ae_size = Some 120,
           ae_analysis = Analysis \<lparr>hasManifest = True, resumeCapable = False,
                 details = [NoIndicators, MayStillSupportResume],
                 metadata = \<lparr>meta_version = None, meta_title = None, meta_launchFile = None\<rparr>\<rparr>,
           ae_updatedFile = Some ''a_updated.zip''\<rparr>,
        \<lparr>ae_filename = ''b.zip'', ae_path = ''courses/b.zip'', ae_size = None,
           ae_analysis = Failed (Message IOError), ae_updatedFile = None\<rparr>]\<rparr>"
  have h: "analyze_folder sample_parse ''var a;'' ''var b;'' sample_disk ''courses'' = Json ?resp"
    by code_simp
  from batch_summary_rederivable[where parse=sample_parse and shimSrc="''var a;''"
      and trackerSrc="''var b;''" and dsk=sample_disk and folderPath="''courses''" and resp="?resp"
      and build=sample_build and outside=no_outside and tmpDirs="\<lambda>i. sample_tmp"
      and sessionIds="\<lambda>i. ''s''" and rresp="\<lparr>batch_success = True, batch_folder = None,
         batch_summary = None, results = []\<rparr>"] h
  show ?thesis by simp
qed

text \<open>
  The claim as stated fails on the repair path: the response of \<open>/repair-folder\<close> holds
  the results and no summary.
\<close>

theorem repair_folder_no_summary_counterexample:
  "(case repair_folder sample_parse sample_build no_outside (\<lambda>i. sample_tmp) (\<lambda>i. ''0f'')
           ''var a;'' sample_disk ''courses'' of
      BadRequest msg \<Rightarrow> False
    | Json resp \<Rightarrow> batch_summary resp = None \<and> length (results resp) = 2)"
  by code_simp


end
